theory Spec2Isabelle
  imports Main
begin

section \<open>Values, configuration and browser events\<close>

text \<open>
  The module under study is \<^verbatim>\<open>vs/platform/list/browser/listService.ts\<close>. Its
  collaborators (configuration service, DOM events, the list and tree widgets, the
  keybinding service) live elsewhere; they appear here as plain data that the functions
  of the module read.

  A JavaScript value as far as the module looks at it: settings are compared with
  string literals by \<^verbatim>\<open>===\<close>, option fields are tested for truthiness, and objects
  are references into a store. Numbers are only stored and handed on, never computed
  with; integers stand for them.
\<close>

datatype js_value =
    JUndefined
  | JNull
  | JBool bool
  | JNum int
  | JStr string
  | JRef nat

text \<open>JavaScript truthiness, as used by \<^verbatim>\<open>!x\<close> and \<^verbatim>\<open>if (x)\<close>.\<close>

fun truthy :: "js_value \<Rightarrow> bool" where
  "truthy JUndefined = False"
| "truthy JNull = False"
| "truthy (JBool b) = b"
| "truthy (JNum n) = (n \<noteq> 0)"
| "truthy (JStr s) = (s \<noteq> [])"
| "truthy (JRef a) = True"

text \<open>
  \<^verbatim>\<open>IConfigurationService.getValue(key)\<close>: a snapshot of the configuration is a total
  function from keys to values, \<^const>\<open>JUndefined\<close> where nothing is configured.
  \<^verbatim>\<open>IConfigurationChangeEvent.affectsConfiguration(key)\<close> is a predicate on keys.
\<close>

type_synonym configuration = "string \<Rightarrow> js_value"

record configuration_change_event =
  affectsConfiguration :: "string \<Rightarrow> bool"

definition multiSelectModifierSettingKey :: string where
  "multiSelectModifierSettingKey = ''workbench.list.multiSelectModifier''"

definition openModeSettingKey :: string where
  "openModeSettingKey = ''workbench.list.openMode''"

definition horizontalScrollingKey :: string where
  "horizontalScrollingKey = ''workbench.tree.horizontalScrolling''"

definition keyboardNavigationSettingKey :: string where
  "keyboardNavigationSettingKey = ''workbench.list.keyboardNavigation''"

definition treeIndentKey :: string where
  "treeIndentKey = ''workbench.tree.indent''"

definition useAltAsMultipleSelectionModifier :: "configuration \<Rightarrow> bool" where
  "useAltAsMultipleSelectionModifier configurationService =
     (configurationService multiSelectModifierSettingKey = JStr ''alt'')"

definition useSingleClickToOpen :: "configuration \<Rightarrow> bool" where
  "useSingleClickToOpen configurationService =
     (configurationService openModeSettingKey \<noteq> JStr ''doubleClick'')"

text \<open>
  DOM events. \<^verbatim>\<open>instanceof MouseEvent\<close> and \<^verbatim>\<open>instanceof KeyboardEvent\<close> are the
  constructor tests \<open>is_MouseEvent\<close> and \<open>is_KeyboardEvent\<close>; every \<^verbatim>\<open>UIEvent\<close> has a
  \<^verbatim>\<open>type\<close> and a numeric \<^verbatim>\<open>detail\<close>. A keyboard event may carry the extra
  \<^verbatim>\<open>preserveFocus?: boolean\<close> of \<^verbatim>\<open>SelectionKeyboardEvent\<close>.
\<close>

datatype ui_event =
    MouseEvent (ev_type: string) (detail: int) (button: int)
      (ctrlKey: bool) (metaKey: bool) (altKey: bool)
  | KeyboardEvent (ev_type: string) (detail: int) (preserveFocus: "bool option")
  | TouchEvent (ev_type: string) (detail: int)
      (ctrlKey: bool) (metaKey: bool) (altKey: bool)
  | OtherUIEvent (ev_type: string) (detail: int)

section \<open>WorkbenchOpenController\<close>

record workbench_open_controller =
  woc_openOnSingleClick :: bool
  woc_existingOpenController :: "(ui_event \<Rightarrow> bool) option"

text \<open>The constructor reads the setting once.\<close>

definition WorkbenchOpenController ::
  "configuration \<Rightarrow> (ui_event \<Rightarrow> bool) option \<Rightarrow> workbench_open_controller" where
  "WorkbenchOpenController configurationService existingOpenController =
     \<lparr> woc_openOnSingleClick = useSingleClickToOpen configurationService,
       woc_existingOpenController = existingOpenController \<rparr>"

text \<open>
  The listener of \<^verbatim>\<open>registerListeners\<close>; \<open>configurationService\<close> is the
  configuration at the time the change event is delivered.
\<close>

definition woc_onDidChangeConfiguration ::
  "configuration_change_event \<Rightarrow> configuration \<Rightarrow>
   workbench_open_controller \<Rightarrow> workbench_open_controller" where
  "woc_onDidChangeConfiguration e configurationService c =
     (if affectsConfiguration e openModeSettingKey
      then c\<lparr> woc_openOnSingleClick := useSingleClickToOpen configurationService \<rparr>
      else c)"

definition shouldOpen :: "workbench_open_controller \<Rightarrow> ui_event \<Rightarrow> bool" where
  "shouldOpen c event =
     (if is_MouseEvent event then
        (let isLeftButton = (button event = 0);
             isDoubleClick = (detail event = 2)
         in if isLeftButton \<and> \<not> woc_openOnSingleClick c \<and> \<not> isDoubleClick then False
            else if isLeftButton \<or> button event = 1 then
              (case woc_existingOpenController c of
                 Some existing \<Rightarrow> existing event
               | None \<Rightarrow> True)
            else False)
      else
        (case woc_existingOpenController c of
           Some existing \<Rightarrow> existing event
         | None \<Rightarrow> True))"

section \<open>MultipleSelectionController\<close>

text \<open>
  \<^verbatim>\<open>IListMouseEvent<T> | IListTouchEvent<T>\<close>: the list's pointer events; their
  browser event is a mouse or a touch event, both of which carry the modifier keys.
\<close>

record 'a list_mouse_event =
  lme_browserEvent :: ui_event
  lme_element :: "'a option"
  lme_index :: "nat option"

record multiple_selection_controller =
  msc_useAltAsMultipleSelectionModifier :: bool

definition MultipleSelectionController :: "configuration \<Rightarrow> multiple_selection_controller" where
  "MultipleSelectionController configurationService =
     \<lparr> msc_useAltAsMultipleSelectionModifier =
         useAltAsMultipleSelectionModifier configurationService \<rparr>"

definition msc_onDidChangeConfiguration ::
  "configuration_change_event \<Rightarrow> configuration \<Rightarrow>
   multiple_selection_controller \<Rightarrow> multiple_selection_controller" where
  "msc_onDidChangeConfiguration e configurationService c =
     (if affectsConfiguration e multiSelectModifierSettingKey
      then c\<lparr> msc_useAltAsMultipleSelectionModifier :=
                useAltAsMultipleSelectionModifier configurationService \<rparr>
      else c)"

text \<open>
  The platform's own \<^verbatim>\<open>isSelectionSingleChangeEvent\<close> and
  \<^verbatim>\<open>isSelectionRangeChangeEvent\<close> are imported from the list widget; the controller's
  methods take them as the first argument.
\<close>

definition isSelectionSingleChangeEvent ::
  "('a list_mouse_event \<Rightarrow> bool) \<Rightarrow> multiple_selection_controller \<Rightarrow>
   'a list_mouse_event \<Rightarrow> bool" where
  "isSelectionSingleChangeEvent platformDefault c event =
     (if msc_useAltAsMultipleSelectionModifier c
      then altKey (lme_browserEvent event)
      else platformDefault event)"

definition isSelectionRangeChangeEvent ::
  "('a list_mouse_event \<Rightarrow> bool) \<Rightarrow> multiple_selection_controller \<Rightarrow>
   'a list_mouse_event \<Rightarrow> bool" where
  "isSelectionRangeChangeEvent platformDefault c event = platformDefault event"

section \<open>WorkbenchList\<close>

text \<open>
  The part of a \<^verbatim>\<open>WorkbenchList\<close> that this module owns: the three context keys it
  binds, the cached modifier flag, and the selection and focus it reads from the base
  list (\<^verbatim>\<open>getSelection()\<close> and \<^verbatim>\<open>getFocus()\<close> return index arrays). The context
  keys start at their declared default \<^verbatim>\<open>false\<close>, a new list has nothing selected or
  focused.
\<close>

record workbench_list =
  wl_selection :: "nat list"
  wl_focus :: "nat list"
  listHasSelectionOrFocus :: bool
  listDoubleSelection :: bool
  listMultiSelection :: bool
  wl_useAltAsMultipleSelectionModifier :: bool

definition WorkbenchList :: "configuration \<Rightarrow> workbench_list" where
  "WorkbenchList configurationService =
     \<lparr> wl_selection = [], wl_focus = [],
       listHasSelectionOrFocus = False,
       listDoubleSelection = False,
       listMultiSelection = False,
       wl_useAltAsMultipleSelectionModifier =
         useAltAsMultipleSelectionModifier configurationService \<rparr>"

definition wl_onSelectionChange :: "workbench_list \<Rightarrow> workbench_list" where
  "wl_onSelectionChange this =
     (let selection = wl_selection this;
          focus = wl_focus this
      in this\<lparr> listHasSelectionOrFocus := (length selection > 0 \<or> length focus > 0),
               listMultiSelection := (length selection > 1),
               listDoubleSelection := (length selection = 2) \<rparr>)"

definition wl_onFocusChange :: "workbench_list \<Rightarrow> workbench_list" where
  "wl_onFocusChange this =
     (let selection = wl_selection this;
          focus = wl_focus this
      in this\<lparr> listHasSelectionOrFocus := (length selection > 0 \<or> length focus > 0) \<rparr>)"

text \<open>
  The listener of \<^verbatim>\<open>WorkbenchList.registerListeners\<close>;
  \<^verbatim>\<open>WorkbenchPagedList.registerListeners\<close> has the same body.
\<close>

definition wl_onDidChangeConfiguration ::
  "configuration_change_event \<Rightarrow> configuration \<Rightarrow> workbench_list \<Rightarrow> workbench_list" where
  "wl_onDidChangeConfiguration e configurationService this =
     (if affectsConfiguration e multiSelectModifierSettingKey
      then this\<lparr> wl_useAltAsMultipleSelectionModifier :=
                   useAltAsMultipleSelectionModifier configurationService \<rparr>
      else this)"

section \<open>WorkbenchObjectTree, WorkbenchDataTree, WorkbenchAsyncDataTree\<close>

text \<open>
  The three tree classes repeat one constructor body and one set of listeners, so one
  record stands for all of them. A JavaScript object passed as options is a finite map
  from property names to values.
\<close>

type_synonym js_object = "string \<rightharpoonup> js_value"

record 'a workbench_object_tree =
  wt_selection :: "'a list"
  wt_focus :: "'a list"
  wt_openOnSingleClick :: bool
  hasSelectionOrFocus :: bool
  hasDoubleSelection :: bool
  hasMultiSelection :: bool
  wt_useAltAsMultipleSelectionModifier :: bool
  wt_updateOptions_calls :: "js_object list"

text \<open>
  Modelled from the spec: \<^verbatim>\<open>updateOptions\<close> is a method of the base tree, which is not
  part of this module. What this module does is call it; each call is recorded with its
  argument, in order.
\<close>

definition updateOptions :: "js_object \<Rightarrow> 'a workbench_object_tree \<Rightarrow> 'a workbench_object_tree" where
  "updateOptions optionsUpdate this =
     this\<lparr> wt_updateOptions_calls := wt_updateOptions_calls this @ [optionsUpdate] \<rparr>"

definition wt_onDidChangeSelection :: "'a workbench_object_tree \<Rightarrow> 'a workbench_object_tree" where
  "wt_onDidChangeSelection this =
     (let selection = wt_selection this;
          focus = wt_focus this
      in this\<lparr> hasSelectionOrFocus := (length selection > 0 \<or> length focus > 0),
               hasMultiSelection := (length selection > 1),
               hasDoubleSelection := (length selection = 2) \<rparr>)"

definition wt_onDidChangeFocus :: "'a workbench_object_tree \<Rightarrow> 'a workbench_object_tree" where
  "wt_onDidChangeFocus this =
     (let selection = wt_selection this;
          focus = wt_focus this
      in this\<lparr> hasSelectionOrFocus := (length selection > 0 \<or> length focus > 0) \<rparr>)"

definition wt_onDidChangeConfiguration ::
  "configuration_change_event \<Rightarrow> configuration \<Rightarrow>
   'a workbench_object_tree \<Rightarrow> 'a workbench_object_tree" where
  "wt_onDidChangeConfiguration e configurationService this =
     (let t1 = (if affectsConfiguration e openModeSettingKey
                then updateOptions
                       [''openOnSingleClick'' \<mapsto> JBool (useSingleClickToOpen configurationService)]
                       this
                else this);
          t2 = (if affectsConfiguration e multiSelectModifierSettingKey
                then t1\<lparr> wt_useAltAsMultipleSelectionModifier :=
                           useAltAsMultipleSelectionModifier configurationService \<rparr>
                else t1);
          t3 = (if affectsConfiguration e treeIndentKey
                then (let indent = configurationService treeIndentKey
                      in updateOptions [''indent'' \<mapsto> indent] t2)
                else t2);
          t4 = (if affectsConfiguration e keyboardNavigationSettingKey
                then (let keyboardNavigation = configurationService keyboardNavigationSettingKey
                      in updateOptions
                           [''simpleKeyboardNavigation'' \<mapsto>
                              JBool (keyboardNavigation = JStr ''simple''),
                            ''filterOnType'' \<mapsto>
                              JBool (keyboardNavigation = JStr ''filter'')]
                           t3)
                else t3)
      in t4)"

section \<open>WorkbenchTree (deprecated)\<close>

record workbench_tree =
  wbt_openOnSingleClick :: bool
  wbt_useAltAsMultipleSelectionModifier :: bool

definition wbt_onDidChangeConfiguration ::
  "configuration_change_event \<Rightarrow> configuration \<Rightarrow> workbench_tree \<Rightarrow> workbench_tree" where
  "wbt_onDidChangeConfiguration e configurationService this =
     (let t1 = (if affectsConfiguration e openModeSettingKey
                then this\<lparr> wbt_openOnSingleClick := useSingleClickToOpen configurationService \<rparr>
                else this);
          t2 = (if affectsConfiguration e multiSelectModifierSettingKey
                then t1\<lparr> wbt_useAltAsMultipleSelectionModifier :=
                           useAltAsMultipleSelectionModifier configurationService \<rparr>
                else t1)
      in t2)"

section \<open>TreeResourceNavigator2\<close>

text \<open>
  \<^verbatim>\<open>ITreeEvent<T>\<close> has the elements and an optional browser event. An
  \<^verbatim>\<open>IOpenEvent<T>\<close> carries the editor options, the side-by-side flag and the element,
  which is \<^verbatim>\<open>getSelection()[0]\<close>: \<open>None\<close> stands for the \<^verbatim>\<open>undefined\<close> read from
  an empty selection.
\<close>

record 'a tree_event =
  te_elements :: "'a list"
  te_browserEvent :: "ui_event option"

record editor_options =
  eo_preserveFocus :: bool
  eo_pinned :: bool
  eo_revealIfVisible :: bool

record 'a open_event =
  oe_editorOptions :: editor_options
  oe_sideBySide :: bool
  oe_element :: "'a option"

record resource_results_navigation_options =
  openOnFocus :: bool

text \<open>
  \<^verbatim>\<open>open\<close> fires one event on \<^verbatim>\<open>_onDidOpenResource\<close>; the handlers return the list
  of events they fired, in order.
\<close>

definition open_resource ::
  "'a workbench_object_tree \<Rightarrow> bool \<Rightarrow> bool \<Rightarrow> bool \<Rightarrow> 'a open_event list" where
  "open_resource tree preserveFocus' pinned sideBySide =
     [\<lparr> oe_editorOptions =
          \<lparr> eo_preserveFocus = preserveFocus', eo_pinned = pinned, eo_revealIfVisible = True \<rparr>,
        oe_sideBySide = sideBySide,
        oe_element = (case wt_selection tree of [] \<Rightarrow> None | x # _ \<Rightarrow> Some x) \<rparr>]"

definition onSelection :: "'a workbench_object_tree \<Rightarrow> 'a tree_event \<Rightarrow> 'a open_event list" where
  "onSelection tree e =
     (case te_browserEvent e of
        None \<Rightarrow> []
      | Some browserEvent \<Rightarrow>
          if ev_type browserEvent = ''contextmenu'' then []
          else
            (let isKeyboardEvent = is_KeyboardEvent browserEvent;
                 isMiddleClick = (if is_MouseEvent browserEvent
                                  then button browserEvent = 1 else False);
                 isDoubleClick = (detail browserEvent = 2);
                 preserveFocus' = (case browserEvent of
                                    KeyboardEvent _ _ (Some b) \<Rightarrow> b
                                  | _ \<Rightarrow> \<not> isDoubleClick)
             in if wt_openOnSingleClick tree \<or> isDoubleClick \<or> isKeyboardEvent then
                  (let sideBySide = (is_MouseEvent browserEvent \<and>
                         (ctrlKey browserEvent \<or> metaKey browserEvent \<or> altKey browserEvent))
                   in open_resource tree preserveFocus' (isDoubleClick \<or> isMiddleClick) sideBySide)
                else []))"

text \<open>
  Modelled from the spec: \<^verbatim>\<open>tree.setSelection(elements, browserEvent)\<close> is a method of
  the base tree, which is not part of this module, and the specification does not
  describe it. The model follows what this module shows of it. The call sets the tree's
  selection to the elements it is given. The tree then raises
  \<^verbatim>\<open>onDidChangeSelection\<close> with these elements and with the browser event it was
  handed (the deprecated navigator of this module marks its own call with
  \<^verbatim>\<open>fromFocus\<close> and returns early from its selection listener for that reason). The
  listeners are the workbench tree's own, which sets the context keys, and the navigator's
  \<open>onSelection\<close>, which \<^verbatim>\<open>registerListeners\<close> attaches in every navigator. The result is
  the tree after the call and the open events that were fired while the selection event
  was delivered.
\<close>

definition setSelection ::
  "'a list \<Rightarrow> ui_event option \<Rightarrow> 'a workbench_object_tree \<Rightarrow>
   'a workbench_object_tree \<times> 'a open_event list" where
  "setSelection elements browserEvent tree =
     (let tree1 = tree\<lparr> wt_selection := elements \<rparr>;
          selectionEvent = \<lparr> te_elements = elements, te_browserEvent = browserEvent \<rparr>;
          tree2 = wt_onDidChangeSelection tree1
      in (tree2, onSelection tree2 selectionEvent))"

text \<open>
  \<open>onFocus\<close> returns the tree after the handler has run and every open event fired
  while it ran: those fired during \<open>setSelection\<close> first, then the handler's own.
\<close>

definition onFocus ::
  "'a workbench_object_tree \<Rightarrow> 'a tree_event \<Rightarrow>
   'a workbench_object_tree \<times> 'a open_event list" where
  "onFocus tree e =
     (let focus = wt_focus tree;
          (tree', fired) = setSelection focus (te_browserEvent e) tree
      in case te_browserEvent e of
           None \<Rightarrow> (tree', fired)
         | Some browserEvent \<Rightarrow>
             (let isMouseEvent = is_MouseEvent browserEvent
              in if \<not> isMouseEvent then (tree', fired @ open_resource tree' True False False)
                 else (tree', fired)))"

text \<open>
  \<^verbatim>\<open>registerListeners\<close>: the focus listener is attached only when the options ask for
  it, the selection listener always. The two functions say what a focus-change and a
  selection-change event of the tree make the navigator do.
\<close>

definition nav_onDidChangeFocus ::
  "resource_results_navigation_options option \<Rightarrow> 'a workbench_object_tree \<Rightarrow>
   'a tree_event \<Rightarrow> 'a workbench_object_tree \<times> 'a open_event list" where
  "nav_onDidChangeFocus options tree e =
     (case options of
        None \<Rightarrow> (tree, [])
      | Some opts \<Rightarrow> if openOnFocus opts then onFocus tree e else (tree, []))"

definition nav_onDidChangeSelection ::
  "resource_results_navigation_options option \<Rightarrow> 'a workbench_object_tree \<Rightarrow>
   'a tree_event \<Rightarrow> 'a open_event list" where
  "nav_onDidChangeSelection options tree e = onSelection tree e"

section \<open>createKeyboardNavigationEventFilter\<close>

text \<open>
  \<^verbatim>\<open>IKeybindingService.softDispatch\<close> returns a resolution or \<^verbatim>\<open>null\<close>; only its
  \<^verbatim>\<open>enterChord\<close> flag is read. The closure's variable \<^verbatim>\<open>inChord\<close> is the state.
  One call of the filter returns its verdict, the new state, and the answer of
  \<^verbatim>\<open>softDispatch\<close> when the filter asked for it (\<open>None\<close> when it did not ask).
\<close>

record resolve_result =
  enterChord :: bool
  commandId :: "string option"

definition keyboardNavigationEventFilter ::
  "('e \<Rightarrow> resolve_result option) \<Rightarrow> bool \<Rightarrow> 'e \<Rightarrow> bool \<times> bool \<times> resolve_result option option" where
  "keyboardNavigationEventFilter softDispatch inChord event =
     (if inChord then (False, False, None)
      else
        (let result = softDispatch event
         in case result of
              Some r \<Rightarrow> if enterChord r then (False, True, Some result)
                        else (True, False, Some result)
            | None \<Rightarrow> (True, False, Some result)))"

text \<open>
  A filter made by \<^verbatim>\<open>createKeyboardNavigationEventFilter\<close> starts with
  \<^verbatim>\<open>inChord = false\<close>; feeding it a sequence of events gives, for each event, the
  verdict and the recorded dispatch.
\<close>

fun run_filter ::
  "('e \<Rightarrow> resolve_result option) \<Rightarrow> bool \<Rightarrow> 'e list \<Rightarrow> (bool \<times> resolve_result option option) list" where
  "run_filter softDispatch inChord [] = []"
| "run_filter softDispatch inChord (event # events) =
     (case keyboardNavigationEventFilter softDispatch inChord event of
        (accepted, inChord', asked) \<Rightarrow>
          (accepted, asked) # run_filter softDispatch inChord' events)"

definition createKeyboardNavigationEventFilter ::
  "('e \<Rightarrow> resolve_result option) \<Rightarrow> 'e list \<Rightarrow> (bool \<times> resolve_result option option) list" where
  "createKeyboardNavigationEventFilter softDispatch events = run_filter softDispatch False events"

section \<open>toWorkbenchListOptions and the tree constructors\<close>

text \<open>
  Options are objects that the caller and the module both hold references to, so they
  live in a store: a map from references to objects, with the next free reference.
  Besides option bags (plain objects) the store holds the objects this module creates:
  a \<^verbatim>\<open>MultipleSelectionController\<close>; a \<^verbatim>\<open>WorkbenchOpenController\<close>, with its
  \<^verbatim>\<open>openOnSingleClick\<close> flag and the value of \<^verbatim>\<open>existingOpenController\<close> it wraps;
  the label provider wrapper, with the caller's provider and the keybinding service it
  delegates to. Any other object is foreign to the module.
\<close>

datatype heap_object =
    PlainObject js_object
  | MultipleSelectionControllerObject multiple_selection_controller
  | WorkbenchOpenControllerObject bool js_value
  | KeyboardNavigationLabelProviderObject js_value js_value
  | ForeignObject

record heap =
  cells :: "nat \<rightharpoonup> heap_object"
  next_free :: nat

definition heap_ok :: "heap \<Rightarrow> bool" where
  "heap_ok h = (\<forall>a. a \<in> dom (cells h) \<longrightarrow> a < next_free h)"

definition alloc :: "heap_object \<Rightarrow> heap \<Rightarrow> nat \<times> heap" where
  "alloc obj h =
     (next_free h, h\<lparr> cells := (cells h)(next_free h \<mapsto> obj), next_free := Suc (next_free h) \<rparr>)"

text \<open>Reading a property that an object does not have gives \<^verbatim>\<open>undefined\<close>.\<close>

definition get_field :: "heap \<Rightarrow> nat \<Rightarrow> string \<Rightarrow> js_value" where
  "get_field h a k =
     (case cells h a of
        Some (PlainObject props) \<Rightarrow> (case props k of Some v \<Rightarrow> v | None \<Rightarrow> JUndefined)
      | _ \<Rightarrow> JUndefined)"

definition set_field :: "nat \<Rightarrow> string \<Rightarrow> js_value \<Rightarrow> heap \<Rightarrow> heap" where
  "set_field a k v h =
     (case cells h a of
        Some (PlainObject props) \<Rightarrow> h\<lparr> cells := (cells h)(a \<mapsto> PlainObject (props(k \<mapsto> v))) \<rparr>
      | _ \<Rightarrow> h)"

definition own_fields :: "heap \<Rightarrow> nat \<Rightarrow> js_object" where
  "own_fields h a = (case cells h a of Some (PlainObject props) \<Rightarrow> props | _ \<Rightarrow> Map.empty)"

text \<open>
  \<^verbatim>\<open>toWorkbenchListOptions(options, configurationService, keybindingService)\<close>.
  \<open>options\<close> is the reference of the caller's option bag; the result is the reference of
  the new bag, the disposables that were collected (by reference, in order), and the store
  after the call. The function is typed for an \<^verbatim>\<open>IListOptions\<close> object: for a
  reference that holds no option bag there is no result.
\<close>

definition toWorkbenchListOptions ::
  "nat \<Rightarrow> configuration \<Rightarrow> js_value \<Rightarrow> heap \<Rightarrow> (nat \<times> nat list \<times> heap) option" where
  "toWorkbenchListOptions options configurationService keybindingService h =
     (case cells h options of
        Some (PlainObject props) \<Rightarrow>
          (let (result, h1) = alloc (PlainObject props) h;
               (disposables1, h2) =
                 (if get_field h1 options ''multipleSelectionSupport'' \<noteq> JBool False
                     \<and> \<not> truthy (get_field h1 options ''multipleSelectionController'')
                  then
                    (let (multipleSelectionController, h') =
                           alloc (MultipleSelectionControllerObject
                                    (MultipleSelectionController configurationService)) h1
                     in ([multipleSelectionController],
                         set_field result ''multipleSelectionController''
                           (JRef multipleSelectionController) h'))
                  else ([], h1));
               (openController, h3) =
                 alloc (WorkbenchOpenControllerObject
                          (useSingleClickToOpen configurationService)
                          (get_field h2 options ''openController'')) h2;
               h4 = set_field result ''openController'' (JRef openController) h3;
               disposables2 = disposables1 @ [openController];
               h5 = (if truthy (get_field h4 options ''keyboardNavigationLabelProvider'')
                     then
                       (let tlp = get_field h4 options ''keyboardNavigationLabelProvider'';
                            (provider, h') =
                              alloc (KeyboardNavigationLabelProviderObject tlp keybindingService) h4
                        in set_field result ''keyboardNavigationLabelProvider'' (JRef provider) h')
                     else h4)
           in Some (result, disposables2, h5))
      | _ \<Rightarrow> None)"

text \<open>
  The object literal that the constructors of \<^verbatim>\<open>WorkbenchObjectTree\<close>,
  \<^verbatim>\<open>WorkbenchDataTree\<close> and \<^verbatim>\<open>WorkbenchAsyncDataTree\<close> pass to \<^verbatim>\<open>super\<close>. In a
  literal a later property overrides an earlier one of the same name, and so does a
  later update of a map. What the constructor gets from elsewhere is a parameter: the
  style controller, the computed styles, the value of the context key
  \<^verbatim>\<open>listAutomaticKeyboardNavigation\<close>, and the event filter closure.
\<close>

definition WorkbenchObjectTree_super_options ::
  "nat \<Rightarrow> configuration \<Rightarrow> js_value \<Rightarrow> js_value \<Rightarrow> js_object \<Rightarrow> js_value \<Rightarrow> js_value \<Rightarrow>
   heap \<Rightarrow> (js_object \<times> nat list \<times> heap) option" where
  "WorkbenchObjectTree_super_options options configurationService keybindingService
       styleController styles automaticKeyboardNavigation keyboardNavigationEventFilter' h =
     (let keyboardNavigation = configurationService keyboardNavigationSettingKey;
          horizontalScrolling =
            (if get_field h options ''horizontalScrolling'' \<noteq> JUndefined
             then get_field h options ''horizontalScrolling''
             else configurationService horizontalScrollingKey);
          openOnSingleClick = useSingleClickToOpen configurationService
      in case toWorkbenchListOptions options configurationService keybindingService h of
           None \<Rightarrow> None
         | Some (workbenchListOptions, workbenchListOptionsDisposable, h') \<Rightarrow>
             Some (([''keyboardSupport'' \<mapsto> JBool False,
                     ''styleController'' \<mapsto> styleController]
                    ++ styles
                    ++ own_fields h' workbenchListOptions)
                     (''indent'' \<mapsto> configurationService treeIndentKey,
                      ''automaticKeyboardNavigation'' \<mapsto> automaticKeyboardNavigation,
                      ''simpleKeyboardNavigation'' \<mapsto> JBool (keyboardNavigation = JStr ''simple''),
                      ''filterOnType'' \<mapsto> JBool (keyboardNavigation = JStr ''filter''),
                      ''horizontalScrolling'' \<mapsto> horizontalScrolling,
                      ''openOnSingleClick'' \<mapsto> JBool openOnSingleClick,
                      ''keyboardNavigationEventFilter'' \<mapsto> keyboardNavigationEventFilter'),
                   workbenchListOptionsDisposable, h'))"

text \<open>
  The tree after its constructor has run: nothing selected or focused, the context keys
  at their default, \<^verbatim>\<open>openOnSingleClick\<close> as passed to \<^verbatim>\<open>super\<close>, and the modifier
  flag read from the configuration. The deprecated \<^verbatim>\<open>WorkbenchTree\<close> caches both
  settings itself.
\<close>

definition WorkbenchObjectTree :: "configuration \<Rightarrow> 'a workbench_object_tree" where
  "WorkbenchObjectTree configurationService =
     \<lparr> wt_selection = [], wt_focus = [],
       wt_openOnSingleClick = useSingleClickToOpen configurationService,
       hasSelectionOrFocus = False, hasDoubleSelection = False, hasMultiSelection = False,
       wt_useAltAsMultipleSelectionModifier =
         useAltAsMultipleSelectionModifier configurationService,
       wt_updateOptions_calls = [] \<rparr>"

definition WorkbenchTree :: "configuration \<Rightarrow> workbench_tree" where
  "WorkbenchTree configurationService =
     \<lparr> wbt_openOnSingleClick = useSingleClickToOpen configurationService,
       wbt_useAltAsMultipleSelectionModifier =
         useAltAsMultipleSelectionModifier configurationService \<rparr>"

section \<open>ListService\<close>

text \<open>
  Two JavaScript array operations the service relies on. \<^verbatim>\<open>indexOf\<close> gives the first
  index of an element, or \<open>-1\<close>. \<^verbatim>\<open>splice(start, 1)\<close> removes one element at
  \<open>start\<close>; a negative \<open>start\<close> counts from the end of the array (and is clamped at
  0), a \<open>start\<close> beyond the end removes nothing.
\<close>

fun indexOf :: "'a list \<Rightarrow> 'a \<Rightarrow> int" where
  "indexOf [] x = -1"
| "indexOf (y # ys) x =
     (if y = x then 0
      else (let i = indexOf ys x in if i < 0 then -1 else i + 1))"

definition splice1 :: "int \<Rightarrow> 'a list \<Rightarrow> 'a list" where
  "splice1 start xs =
     (let len = int (length xs);
          actualStart = (if start < 0 then max (len + start) 0 else min start len)
      in take (nat actualStart) xs @ drop (Suc (nat actualStart)) xs)"

text \<open>
  An \<^verbatim>\<open>IRegisteredList\<close> is an object made afresh by each call of \<^verbatim>\<open>register\<close>;
  the service compares these objects by identity, so each carries the reference it was
  allocated at. Widgets are compared by identity as well: the type \<open>'w\<close> is the type of
  widget references.
\<close>

record 'w registered_list =
  rl_ref :: nat
  rl_widget :: 'w
  rl_extraContextKeys :: "nat list option"

text \<open>
  The fields \<open>svc_lists\<close> and \<open>lastFocusedWidget\<close> are the service's own. The rest is
  the part of its surroundings that \<^verbatim>\<open>register\<close> acts on: \<open>svc_next_ref\<close> is the
  next free object reference; \<open>svc_listeners\<close> holds the registrations whose
  \<^verbatim>\<open>onDidFocus\<close> and \<^verbatim>\<open>onDidDispose\<close> listeners are attached to their widget (they are
  attached by \<^verbatim>\<open>register\<close> and detached together by the disposable it returns);
  \<open>svc_disposed_registered\<close> remembers which widgets have fired
  \<^verbatim>\<open>onDidDispose\<close> while they were registered or attached.
\<close>

record 'w list_service =
  svc_lists :: "'w registered_list list"
  lastFocusedWidget :: "'w option"
  svc_next_ref :: nat
  svc_listeners :: "'w registered_list list"
  svc_disposed_registered :: "'w set"

definition ListService :: "'w list_service" where
  "ListService =
     \<lparr> svc_lists = [], lastFocusedWidget = None, svc_next_ref = 0,
       svc_listeners = [], svc_disposed_registered = {} \<rparr>"

definition lastFocusedList :: "'w list_service \<Rightarrow> 'w option" where
  "lastFocusedList this = lastFocusedWidget this"

datatype error = Error string

text \<open>
  \<^verbatim>\<open>register(widget, extraContextKeys)\<close>. \<open>htmlElement\<close> is what
  \<^verbatim>\<open>widget.getHTMLElement()\<close> returns and \<open>activeElement\<close> is
  \<^verbatim>\<open>document.activeElement\<close> (\<open>None\<close> for \<^verbatim>\<open>null\<close>). The result is the thrown error,
  or the registration that the returned disposable closes over, together with the state
  of the service after the call.
\<close>

definition register ::
  "'w \<Rightarrow> nat list option \<Rightarrow> nat \<Rightarrow> nat option \<Rightarrow> 'w list_service \<Rightarrow>
   (error + 'w registered_list) \<times> 'w list_service" where
  "register widget extraContextKeys htmlElement activeElement this =
     (if list_ex (\<lambda>l. rl_widget l = widget) (svc_lists this)
      then (Inl (Error ''Cannot register the same widget multiple times''), this)
      else
        (let registeredList =
               \<lparr> rl_ref = svc_next_ref this, rl_widget = widget,
                 rl_extraContextKeys = extraContextKeys \<rparr>;
             s1 = this\<lparr> svc_next_ref := Suc (svc_next_ref this),
                        svc_lists := svc_lists this @ [registeredList] \<rparr>;
             s2 = (if Some htmlElement = activeElement
                   then s1\<lparr> lastFocusedWidget := Some widget \<rparr>
                   else s1);
             s3 = s2\<lparr> svc_listeners := svc_listeners s2 @ [registeredList] \<rparr>
         in (Inr registeredList, s3)))"

text \<open>The two listeners that \<^verbatim>\<open>register\<close> attaches to the widget.\<close>

definition onDidFocus_listener :: "'w registered_list \<Rightarrow> 'w list_service \<Rightarrow> 'w list_service" where
  "onDidFocus_listener registeredList this =
     this\<lparr> lastFocusedWidget := Some (rl_widget registeredList) \<rparr>"

definition onDidDispose_listener :: "'w registered_list \<Rightarrow> 'w list_service \<Rightarrow> 'w list_service" where
  "onDidDispose_listener registeredList this =
     (let s1 = this\<lparr> svc_lists := filter (\<lambda>l. l \<noteq> registeredList) (svc_lists this) \<rparr>
      in if lastFocusedWidget s1 = Some (rl_widget registeredList)
         then s1\<lparr> lastFocusedWidget := None \<rparr>
         else s1)"

text \<open>
  Disposing the \<^verbatim>\<open>combinedDisposable\<close> returned by \<^verbatim>\<open>register\<close>: the focus listener
  is detached, the registration is spliced out of \<open>svc_lists\<close> at the index
  \<^verbatim>\<open>indexOf\<close> finds, and the dispose listener is detached.
\<close>

definition dispose_registration :: "'w registered_list \<Rightarrow> 'w list_service \<Rightarrow> 'w list_service" where
  "dispose_registration registeredList this =
     this\<lparr> svc_lists := splice1 (indexOf (svc_lists this) registeredList) (svc_lists this),
            svc_listeners := removeAll registeredList (svc_listeners this) \<rparr>"

text \<open>
  A widget is registered when \<open>svc_lists\<close> has a registration of it (this is the test
  \<^verbatim>\<open>register\<close> makes), and attached when the listeners of one of its registrations
  are attached to it.
\<close>

definition registered :: "'w \<Rightarrow> 'w list_service \<Rightarrow> bool" where
  "registered widget this = list_ex (\<lambda>l. rl_widget l = widget) (svc_lists this)"

definition attached :: "'w \<Rightarrow> 'w list_service \<Rightarrow> bool" where
  "attached widget this = list_ex (\<lambda>l. rl_widget l = widget) (svc_listeners this)"

text \<open>
  Modelled from the spec: the event emitters of the widgets are not part of this module.
  A widget that fires \<^verbatim>\<open>onDidFocus\<close> or \<^verbatim>\<open>onDidDispose\<close> runs the attached
  listeners of that widget, in the order they were attached.
\<close>

definition fire_onDidFocus :: "'w \<Rightarrow> 'w list_service \<Rightarrow> 'w list_service" where
  "fire_onDidFocus widget this =
     fold onDidFocus_listener
       (filter (\<lambda>l. rl_widget l = widget) (svc_listeners this)) this"

definition fire_onDidDispose :: "'w \<Rightarrow> 'w list_service \<Rightarrow> 'w list_service" where
  "fire_onDidDispose widget this =
     (let wasRegistered = (registered widget this \<or> attached widget this);
          s1 = fold onDidDispose_listener
                 (filter (\<lambda>l. rl_widget l = widget) (svc_listeners this)) this
      in if wasRegistered
         then s1\<lparr> svc_disposed_registered := insert widget (svc_disposed_registered s1) \<rparr>
         else s1)"

text \<open>
  What can happen to a service: a call of \<^verbatim>\<open>register\<close>, the disposal of a disposable
  it returned, and the two widget events. A history is a list of such actions, run from
  a new service. A history respects the widgets' life cycle when a widget that has fired
  \<^verbatim>\<open>onDidDispose\<close> is not registered afterwards and fires no \<^verbatim>\<open>onDidFocus\<close>
  afterwards.
\<close>

datatype 'w action =
    Register 'w "nat list option" nat "nat option"
  | DisposeRegistration "'w registered_list"
  | WidgetFocus 'w
  | WidgetDispose 'w

fun step :: "'w action \<Rightarrow> 'w list_service \<Rightarrow> 'w list_service" where
  "step (Register widget extraContextKeys htmlElement activeElement) this =
     snd (register widget extraContextKeys htmlElement activeElement this)"
| "step (DisposeRegistration registeredList) this = dispose_registration registeredList this"
| "step (WidgetFocus widget) this = fire_onDidFocus widget this"
| "step (WidgetDispose widget) this = fire_onDidDispose widget this"

definition run :: "'w action list \<Rightarrow> 'w list_service" where
  "run history = fold step history ListService"

fun life_cycle :: "'w set \<Rightarrow> 'w action list \<Rightarrow> bool" where
  "life_cycle gone [] = True"
| "life_cycle gone (Register widget extraContextKeys htmlElement activeElement # history) =
     (widget \<notin> gone \<and> life_cycle gone history)"
| "life_cycle gone (DisposeRegistration registeredList # history) = life_cycle gone history"
| "life_cycle gone (WidgetFocus widget # history) = (widget \<notin> gone \<and> life_cycle gone history)"
| "life_cycle gone (WidgetDispose widget # history) = life_cycle (insert widget gone) history"

text \<open>
  Two facts hold of every state a history can reach: no widget is registered twice and
  every registration in \<open>svc_lists\<close> has its listeners attached (\<open>svc_inv\<close>); and no
  widget that fired \<^verbatim>\<open>onDidDispose\<close> while registered is the last focused one
  (\<open>no_stale_focus\<close>, relative to the set of widgets that have fired
  \<^verbatim>\<open>onDidDispose\<close> so far).
\<close>

definition svc_inv :: "'w list_service \<Rightarrow> bool" where
  "svc_inv this =
     (distinct (map rl_widget (svc_lists this))
      \<and> set (svc_lists this) \<subseteq> set (svc_listeners this))"

definition no_stale_focus :: "'w set \<Rightarrow> 'w list_service \<Rightarrow> bool" where
  "no_stale_focus gone this =
     (svc_disposed_registered this \<subseteq> gone
      \<and> (\<forall>w \<in> svc_disposed_registered this. lastFocusedWidget this \<noteq> Some w))"

fun gone_after :: "'w action \<Rightarrow> 'w set \<Rightarrow> 'w set" where
  "gone_after (WidgetDispose widget) gone = insert widget gone"
| "gone_after _ gone = gone"

section \<open>Properties of WorkbenchOpenController\<close>

text \<open>
  Claim C3. With no wrapped open controller, \<open>shouldOpen\<close> refuses a left click that is
  not a double click while single-click opening is off; otherwise it accepts left and
  middle clicks, refuses every other mouse button, and accepts every event that is not a
  mouse event. The flag \<open>openOnSingleClick\<close> is true exactly when the configured
  \<^verbatim>\<open>workbench.list.openMode\<close> is not \<^verbatim>\<open>doubleClick\<close>: the constructor
  establishes this, a configuration change that affects the key re-establishes it for the
  new configuration, and a change that does not affect the key leaves the flag alone.
\<close>

theorem shouldOpen_without_existing_controller:
  "(woc_existingOpenController c = None \<longrightarrow>
      (is_MouseEvent ev \<and> button ev = 0 \<and> \<not> woc_openOnSingleClick c \<and> detail ev \<noteq> 2
         \<longrightarrow> shouldOpen c ev = False)
    \<and> (is_MouseEvent ev \<and> (button ev = 0 \<or> button ev = 1)
         \<and> \<not> (button ev = 0 \<and> \<not> woc_openOnSingleClick c \<and> detail ev \<noteq> 2)
         \<longrightarrow> shouldOpen c ev = True)
    \<and> (is_MouseEvent ev \<and> button ev \<noteq> 0 \<and> button ev \<noteq> 1 \<longrightarrow> shouldOpen c ev = False)
    \<and> (\<not> is_MouseEvent ev \<longrightarrow> shouldOpen c ev = True))
   \<and> woc_openOnSingleClick (WorkbenchOpenController cfg ex)
       = (cfg ''workbench.list.openMode'' \<noteq> JStr ''doubleClick'')
   \<and> (affectsConfiguration e ''workbench.list.openMode''
        \<longrightarrow> woc_openOnSingleClick (woc_onDidChangeConfiguration e cfg' c)
              = (cfg' ''workbench.list.openMode'' \<noteq> JStr ''doubleClick''))
   \<and> (\<not> affectsConfiguration e ''workbench.list.openMode''
        \<longrightarrow> woc_onDidChangeConfiguration e cfg' c = c)"
  by (auto simp: shouldOpen_def Let_def WorkbenchOpenController_def
      woc_onDidChangeConfiguration_def useSingleClickToOpen_def openModeSettingKey_def)

theorem shouldOpen_without_existing_controller_witness:
  "shouldOpen (WorkbenchOpenController (\<lambda>k. JStr ''doubleClick'') None)
     (MouseEvent ''click'' 1 0 False False False) = False
   \<and> shouldOpen (WorkbenchOpenController (\<lambda>k. JStr ''doubleClick'') None)
     (MouseEvent ''click'' 2 0 False False False) = True
   \<and> shouldOpen (WorkbenchOpenController (\<lambda>k. JStr ''doubleClick'') None)
     (MouseEvent ''auxclick'' 1 1 False False False) = True
   \<and> shouldOpen (WorkbenchOpenController (\<lambda>k. JStr ''singleClick'') None)
     (MouseEvent ''click'' 1 0 False False False) = True
   \<and> shouldOpen (WorkbenchOpenController (\<lambda>k. JStr ''singleClick'') None)
     (MouseEvent ''contextmenu'' 1 2 False False False) = False
   \<and> shouldOpen (WorkbenchOpenController (\<lambda>k. JStr ''doubleClick'') None)
     (KeyboardEvent ''keydown'' 0 None) = True
   \<and> woc_openOnSingleClick
       (woc_onDidChangeConfiguration \<lparr> affectsConfiguration = (\<lambda>k. True) \<rparr>
          (\<lambda>k. JStr ''singleClick'')
          (WorkbenchOpenController (\<lambda>k. JStr ''doubleClick'') None)) = True"
proof -
  let ?d = "WorkbenchOpenController (\<lambda>k. JStr ''doubleClick'') None"
  let ?s = "WorkbenchOpenController (\<lambda>k. JStr ''singleClick'') None"
  let ?all = "\<lparr> affectsConfiguration = (\<lambda>k. True) \<rparr>"
  have d: "woc_existingOpenController ?d = None" "\<not> woc_openOnSingleClick ?d"
    by (simp_all add: WorkbenchOpenController_def useSingleClickToOpen_def)
  have s: "woc_existingOpenController ?s = None" "woc_openOnSingleClick ?s"
    by (simp_all add: WorkbenchOpenController_def useSingleClickToOpen_def)
  note t = shouldOpen_without_existing_controller
  have "shouldOpen ?d (MouseEvent ''click'' 1 0 False False False) = False"
    using t [of ?d "MouseEvent ''click'' 1 0 False False False"] d by simp
  moreover have "shouldOpen ?d (MouseEvent ''click'' 2 0 False False False) = True"
    using t [of ?d "MouseEvent ''click'' 2 0 False False False"] d by simp
  moreover have "shouldOpen ?d (MouseEvent ''auxclick'' 1 1 False False False) = True"
    using t [of ?d "MouseEvent ''auxclick'' 1 1 False False False"] d by simp
  moreover have "shouldOpen ?s (MouseEvent ''click'' 1 0 False False False) = True"
    using t [of ?s "MouseEvent ''click'' 1 0 False False False"] s by simp
  moreover have "shouldOpen ?s (MouseEvent ''contextmenu'' 1 2 False False False) = False"
    using t [of ?s "MouseEvent ''contextmenu'' 1 2 False False False"] s by simp
  moreover have "shouldOpen ?d (KeyboardEvent ''keydown'' 0 None) = True"
    using t [of ?d "KeyboardEvent ''keydown'' 0 None"] d by simp
  moreover have "woc_openOnSingleClick
       (woc_onDidChangeConfiguration ?all (\<lambda>k. JStr ''singleClick'') ?d) = True"
    using t [of ?d "MouseEvent ''click'' 1 0 False False False" "\<lambda>k. JStr ''doubleClick''" None
                ?all "\<lambda>k. JStr ''singleClick''"]
    by simp
  ultimately show ?thesis by blast
qed

section \<open>Properties of MultipleSelectionController and the cached modifier flag\<close>

text \<open>
  Claim C5. In a \<open>MultipleSelectionController\<close> and in every workbench list or tree
  widget, \<open>useAltAsMultipleSelectionModifier\<close> equals (the configured
  \<^verbatim>\<open>workbench.list.multiSelectModifier\<close> is \<^verbatim>\<open>alt\<close>) after construction, and is read
  again from the configuration on every change event that affects that key (a change that
  does not affect the key leaves it as it was). When the controller's flag is true,
  \<open>isSelectionSingleChangeEvent\<close> returns the \<^verbatim>\<open>altKey\<close> of the event's browser event;
  when it is false, it returns what the platform's own \<open>isSelectionSingleChangeEvent\<close>
  returns.
\<close>

theorem useAltAsMultipleSelectionModifier_follows_configuration:
  "msc_useAltAsMultipleSelectionModifier (MultipleSelectionController cfg)
     = (cfg ''workbench.list.multiSelectModifier'' = JStr ''alt'')
   \<and> wl_useAltAsMultipleSelectionModifier (WorkbenchList cfg)
     = (cfg ''workbench.list.multiSelectModifier'' = JStr ''alt'')
   \<and> wt_useAltAsMultipleSelectionModifier (WorkbenchObjectTree cfg :: 'a workbench_object_tree)
     = (cfg ''workbench.list.multiSelectModifier'' = JStr ''alt'')
   \<and> wbt_useAltAsMultipleSelectionModifier (WorkbenchTree cfg)
     = (cfg ''workbench.list.multiSelectModifier'' = JStr ''alt'')
   \<and> (affectsConfiguration e ''workbench.list.multiSelectModifier'' \<longrightarrow>
        msc_useAltAsMultipleSelectionModifier (msc_onDidChangeConfiguration e cfg' c)
          = (cfg' ''workbench.list.multiSelectModifier'' = JStr ''alt'')
      \<and> wl_useAltAsMultipleSelectionModifier (wl_onDidChangeConfiguration e cfg' wl)
          = (cfg' ''workbench.list.multiSelectModifier'' = JStr ''alt'')
      \<and> wt_useAltAsMultipleSelectionModifier
            (wt_onDidChangeConfiguration e cfg' (wt :: 'a workbench_object_tree))
          = (cfg' ''workbench.list.multiSelectModifier'' = JStr ''alt'')
      \<and> wbt_useAltAsMultipleSelectionModifier (wbt_onDidChangeConfiguration e cfg' wbt)
          = (cfg' ''workbench.list.multiSelectModifier'' = JStr ''alt''))
   \<and> (\<not> affectsConfiguration e ''workbench.list.multiSelectModifier'' \<longrightarrow>
        msc_useAltAsMultipleSelectionModifier (msc_onDidChangeConfiguration e cfg' c)
          = msc_useAltAsMultipleSelectionModifier c
      \<and> wl_useAltAsMultipleSelectionModifier (wl_onDidChangeConfiguration e cfg' wl)
          = wl_useAltAsMultipleSelectionModifier wl
      \<and> wt_useAltAsMultipleSelectionModifier (wt_onDidChangeConfiguration e cfg' wt)
          = wt_useAltAsMultipleSelectionModifier wt
      \<and> wbt_useAltAsMultipleSelectionModifier (wbt_onDidChangeConfiguration e cfg' wbt)
          = wbt_useAltAsMultipleSelectionModifier wbt)
   \<and> (msc_useAltAsMultipleSelectionModifier c \<longrightarrow>
        isSelectionSingleChangeEvent platformDefault c event = altKey (lme_browserEvent event))
   \<and> (\<not> msc_useAltAsMultipleSelectionModifier c \<longrightarrow>
        isSelectionSingleChangeEvent platformDefault c event = platformDefault event)"
  by (simp add: MultipleSelectionController_def WorkbenchList_def
      WorkbenchObjectTree_def WorkbenchTree_def
      msc_onDidChangeConfiguration_def wl_onDidChangeConfiguration_def
      wt_onDidChangeConfiguration_def wbt_onDidChangeConfiguration_def
      updateOptions_def Let_def isSelectionSingleChangeEvent_def
      useAltAsMultipleSelectionModifier_def multiSelectModifierSettingKey_def)

theorem useAltAsMultipleSelectionModifier_follows_configuration_witness:
  "msc_useAltAsMultipleSelectionModifier
     (msc_onDidChangeConfiguration \<lparr> affectsConfiguration = (\<lambda>k. True) \<rparr>
        (\<lambda>k. JStr ''alt'') (MultipleSelectionController (\<lambda>k. JStr ''ctrlCmd''))) = True
   \<and> isSelectionSingleChangeEvent (\<lambda>ev. ctrlKey (lme_browserEvent ev))
        (MultipleSelectionController (\<lambda>k. JStr ''ctrlCmd''))
        \<lparr> lme_browserEvent = MouseEvent ''click'' 1 0 True False False,
          lme_element = Some (7::nat), lme_index = Some 0 \<rparr> = True
   \<and> isSelectionSingleChangeEvent (\<lambda>ev. ctrlKey (lme_browserEvent ev))
        (MultipleSelectionController (\<lambda>k. JStr ''alt''))
        \<lparr> lme_browserEvent = MouseEvent ''click'' 1 0 True False False,
          lme_element = Some (7::nat), lme_index = Some 0 \<rparr> = False"
proof -
  let ?ev = "\<lparr> lme_browserEvent = MouseEvent ''click'' 1 0 True False False,
                lme_element = Some (7::nat), lme_index = Some 0 \<rparr>"
  let ?dflt = "\<lambda>ev :: nat list_mouse_event. ctrlKey (lme_browserEvent ev)"
  let ?ctrl = "MultipleSelectionController (\<lambda>k. JStr ''ctrlCmd'')"
  let ?alt = "MultipleSelectionController (\<lambda>k. JStr ''alt'')"
  let ?all = "\<lparr> affectsConfiguration = (\<lambda>k. True) \<rparr>"
  let ?wt = "\<lparr> wt_selection = [], wt_focus = [], wt_openOnSingleClick = True,
              hasSelectionOrFocus = False, hasDoubleSelection = False,
              hasMultiSelection = False, wt_useAltAsMultipleSelectionModifier = False,
              wt_updateOptions_calls = [] \<rparr> :: nat workbench_object_tree"
  let ?wbt = "\<lparr> wbt_openOnSingleClick = True, wbt_useAltAsMultipleSelectionModifier = False \<rparr>"
  have flags: "\<not> msc_useAltAsMultipleSelectionModifier ?ctrl"
    "msc_useAltAsMultipleSelectionModifier ?alt"
    by (simp_all add: MultipleSelectionController_def useAltAsMultipleSelectionModifier_def)
  have "msc_useAltAsMultipleSelectionModifier
          (msc_onDidChangeConfiguration ?all (\<lambda>k. JStr ''alt'') ?ctrl) = True
        \<and> isSelectionSingleChangeEvent ?dflt ?ctrl ?ev = True"
    using useAltAsMultipleSelectionModifier_follows_configuration
      [where cfg = "\<lambda>k. JStr ''ctrlCmd''" and e = ?all and cfg' = "\<lambda>k. JStr ''alt''"
         and c = ?ctrl and wl = "WorkbenchList (\<lambda>k. JStr ''ctrlCmd'')" and wt = ?wt
         and wbt = ?wbt and platformDefault = ?dflt and event = ?ev]
      flags
    by simp
  moreover have "isSelectionSingleChangeEvent ?dflt ?alt ?ev = False"
    using useAltAsMultipleSelectionModifier_follows_configuration
      [where cfg = "\<lambda>k. JStr ''alt''" and e = ?all and cfg' = "\<lambda>k. JStr ''alt''"
         and c = ?alt and wl = "WorkbenchList (\<lambda>k. JStr ''alt'')" and wt = ?wt
         and wbt = ?wbt and platformDefault = ?dflt and event = ?ev]
      flags
    by simp
  ultimately show ?thesis by blast
qed

section \<open>Properties of the context keys\<close>

text \<open>
  Claim C2. In a \<open>WorkbenchList\<close>, and in the same way in the three workbench trees,
  once the listener for a selection change or for a focus change has run, the context key
  \<open>listHasSelectionOrFocus\<close> equals (the selection is not empty or the focus is not
  empty); once the listener for a selection change has run, \<open>listMultiSelection\<close>
  equals (more than one element is selected) and \<open>listDoubleSelection\<close> equals
  (exactly two elements are selected).
\<close>

theorem context_keys_after_selection_and_focus_events:
  "(let w' = wl_onSelectionChange w in
      listHasSelectionOrFocus w' = (0 < length (wl_selection w') \<or> 0 < length (wl_focus w'))
    \<and> listMultiSelection w' = (1 < length (wl_selection w'))
    \<and> listDoubleSelection w' = (length (wl_selection w') = 2)
    \<and> wl_selection w' = wl_selection w \<and> wl_focus w' = wl_focus w)
   \<and> (let w' = wl_onFocusChange w in
      listHasSelectionOrFocus w' = (0 < length (wl_selection w') \<or> 0 < length (wl_focus w'))
    \<and> wl_selection w' = wl_selection w \<and> wl_focus w' = wl_focus w)
   \<and> (let t' = wt_onDidChangeSelection t in
      hasSelectionOrFocus t' = (0 < length (wt_selection t') \<or> 0 < length (wt_focus t'))
    \<and> hasMultiSelection t' = (1 < length (wt_selection t'))
    \<and> hasDoubleSelection t' = (length (wt_selection t') = 2)
    \<and> wt_selection t' = wt_selection t \<and> wt_focus t' = wt_focus t)
   \<and> (let t' = wt_onDidChangeFocus t in
      hasSelectionOrFocus t' = (0 < length (wt_selection t') \<or> 0 < length (wt_focus t'))
    \<and> wt_selection t' = wt_selection t \<and> wt_focus t' = wt_focus t)"
  by (simp add: wl_onSelectionChange_def wl_onFocusChange_def
      wt_onDidChangeSelection_def wt_onDidChangeFocus_def Let_def)

theorem context_keys_after_selection_and_focus_events_witness:
  "listHasSelectionOrFocus
     (wl_onSelectionChange ((WorkbenchList (\<lambda>k. JUndefined))\<lparr> wl_selection := [3, 5] \<rparr>)) = True
   \<and> listMultiSelection
     (wl_onSelectionChange ((WorkbenchList (\<lambda>k. JUndefined))\<lparr> wl_selection := [3, 5] \<rparr>)) = True
   \<and> listDoubleSelection
     (wl_onSelectionChange ((WorkbenchList (\<lambda>k. JUndefined))\<lparr> wl_selection := [3, 5] \<rparr>)) = True
   \<and> listHasSelectionOrFocus
     (wl_onFocusChange (WorkbenchList (\<lambda>k. JUndefined))) = False"
proof -
  let ?w = "(WorkbenchList (\<lambda>k. JUndefined))\<lparr> wl_selection := [3, 5] \<rparr>"
  let ?t = "\<lparr> wt_selection = [], wt_focus = [], wt_openOnSingleClick = True,
              hasSelectionOrFocus = False, hasDoubleSelection = False,
              hasMultiSelection = False, wt_useAltAsMultipleSelectionModifier = False,
              wt_updateOptions_calls = [] \<rparr> :: nat workbench_object_tree"
  note t = context_keys_after_selection_and_focus_events
  have sel: "wl_selection ?w = [3, 5]" "wl_focus ?w = []"
    "wl_selection (WorkbenchList (\<lambda>k. JUndefined)) = []"
    "wl_focus (WorkbenchList (\<lambda>k. JUndefined)) = []"
    by (simp_all add: WorkbenchList_def)
  show ?thesis
    using t [of ?w ?t] t [of "WorkbenchList (\<lambda>k. JUndefined)" ?t] sel
    by (simp add: Let_def)
qed

section \<open>Properties of TreeResourceNavigator2\<close>

text \<open>
  Claim C1. When a selection-change event reaches \<open>onSelection\<close> with a browser event
  whose type is not \<^verbatim>\<open>contextmenu\<close>, exactly one open event is fired if the tree opens
  on single click, or the browser event's detail is 2 (a double click), or the browser
  event is a keyboard event, and no event is fired otherwise. The fired event is pinned
  exactly for a double click or a middle-button click; it is side by side exactly when the
  browser event is a mouse event with ctrl, meta or alt held; its \<open>preserveFocus\<close> is
  the keyboard event's own flag when that is a boolean, and otherwise the negation of
  double click; and its element is the first element of the tree's selection.
\<close>

theorem onSelection_fires_one_open_event:
  assumes "te_browserEvent e = Some be"
    and "ev_type be \<noteq> ''contextmenu''"
  shows "(length (onSelection tree e) = 1)
           = (wt_openOnSingleClick tree \<or> detail be = 2 \<or> is_KeyboardEvent be)
       \<and> (length (onSelection tree e) \<noteq> 1 \<longrightarrow> onSelection tree e = [])
       \<and> (\<forall>ev \<in> set (onSelection tree e).
            eo_pinned (oe_editorOptions ev)
              = (detail be = 2 \<or> (is_MouseEvent be \<and> button be = 1))
          \<and> oe_sideBySide ev
              = (is_MouseEvent be \<and> (ctrlKey be \<or> metaKey be \<or> altKey be))
          \<and> eo_preserveFocus (oe_editorOptions ev)
              = (if is_KeyboardEvent be \<and> preserveFocus be \<noteq> None
                 then the (preserveFocus be) else detail be \<noteq> 2)
          \<and> oe_element ev
              = (if wt_selection tree = [] then None else Some (hd (wt_selection tree))))"
  using assms
  by (cases be; cases "wt_selection tree")
     (auto simp: onSelection_def open_resource_def Let_def split: option.splits)

theorem onSelection_fires_one_open_event_witness:
  "length (onSelection
     \<lparr> wt_selection = [4::nat, 9], wt_focus = [4], wt_openOnSingleClick = False,
       hasSelectionOrFocus = True, hasDoubleSelection = True, hasMultiSelection = True,
       wt_useAltAsMultipleSelectionModifier = False, wt_updateOptions_calls = [] \<rparr>
     \<lparr> te_elements = [4, 9],
       te_browserEvent = Some (MouseEvent ''dblclick'' 2 0 True False False) \<rparr>) = 1
   \<and> hd (onSelection
     \<lparr> wt_selection = [4::nat, 9], wt_focus = [4], wt_openOnSingleClick = False,
       hasSelectionOrFocus = True, hasDoubleSelection = True, hasMultiSelection = True,
       wt_useAltAsMultipleSelectionModifier = False, wt_updateOptions_calls = [] \<rparr>
     \<lparr> te_elements = [4, 9],
       te_browserEvent = Some (MouseEvent ''dblclick'' 2 0 True False False) \<rparr>)
     = \<lparr> oe_editorOptions =
         \<lparr> eo_preserveFocus = False, eo_pinned = True, eo_revealIfVisible = True \<rparr>,
       oe_sideBySide = True, oe_element = Some 4 \<rparr>"
proof -
  let ?tree = "\<lparr> wt_selection = [4::nat, 9], wt_focus = [4], wt_openOnSingleClick = False,
       hasSelectionOrFocus = True, hasDoubleSelection = True, hasMultiSelection = True,
       wt_useAltAsMultipleSelectionModifier = False, wt_updateOptions_calls = [] \<rparr>"
  let ?be = "MouseEvent ''dblclick'' 2 0 True False False"
  let ?e = "\<lparr> te_elements = [4::nat, 9], te_browserEvent = Some ?be \<rparr>"
  have a: "te_browserEvent ?e = Some ?be" "ev_type ?be \<noteq> ''contextmenu''" by simp_all
  note t = onSelection_fires_one_open_event [OF a, of ?tree]
  have len: "length (onSelection ?tree ?e) = 1"
    using t by simp
  then have mem: "hd (onSelection ?tree ?e) \<in> set (onSelection ?tree ?e)"
    by (cases "onSelection ?tree ?e") auto
  have fields: "eo_pinned (oe_editorOptions (hd (onSelection ?tree ?e)))
        \<and> oe_sideBySide (hd (onSelection ?tree ?e))
        \<and> \<not> eo_preserveFocus (oe_editorOptions (hd (onSelection ?tree ?e)))
        \<and> oe_element (hd (onSelection ?tree ?e)) = Some 4"
    using t mem by simp
  have reveal: "eo_revealIfVisible (oe_editorOptions (hd (onSelection ?tree ?e)))"
    by (simp add: onSelection_def open_resource_def)
  have "hd (onSelection ?tree ?e) = \<lparr> oe_editorOptions =
         \<lparr> eo_preserveFocus = False, eo_pinned = True, eo_revealIfVisible = True \<rparr>,
       oe_sideBySide = True, oe_element = Some 4 \<rparr>"
    using fields reveal
    by (cases "hd (onSelection ?tree ?e)"; cases "oe_editorOptions (hd (onSelection ?tree ?e))")
       auto
  with len show ?thesis by blast
qed

text \<open>
  Claim C7, amended. In a navigator built with \<open>openOnFocus\<close>, a focus-change event
  first makes the focused elements the tree's selection, by a call of \<open>setSelection\<close>
  that hands on the browser event; the selection-change event that the tree raises for it
  reaches the navigator's \<open>onSelection\<close>. After that: with no browser event nothing more
  happens, and no open event is fired at all; with a browser event that is not a mouse
  event the focus handler itself fires exactly one open event, with \<open>preserveFocus\<close>
  true, \<open>pinned\<close> false and \<open>sideBySide\<close> false (its element is the first focused
  element), after whatever \<open>onSelection\<close> fired; with a mouse event the focus handler
  itself fires no open event, so that the open events are those \<open>onSelection\<close> fired.
\<close>

theorem onFocus_with_openOnFocus:
  assumes "options = Some opts" and "openOnFocus opts"
  shows "fst (nav_onDidChangeFocus options tree e)
           = wt_onDidChangeSelection (tree\<lparr> wt_selection := wt_focus tree \<rparr>)
       \<and> wt_selection (fst (nav_onDidChangeFocus options tree e)) = wt_focus tree
       \<and> (te_browserEvent e = None \<longrightarrow> snd (nav_onDidChangeFocus options tree e) = [])
       \<and> (\<forall>be. te_browserEvent e = Some be \<and> \<not> is_MouseEvent be \<longrightarrow>
            snd (nav_onDidChangeFocus options tree e)
              = onSelection (fst (nav_onDidChangeFocus options tree e))
                  \<lparr> te_elements = wt_focus tree, te_browserEvent = Some be \<rparr>
                @ [\<lparr> oe_editorOptions =
                      \<lparr> eo_preserveFocus = True, eo_pinned = False, eo_revealIfVisible = True \<rparr>,
                    oe_sideBySide = False,
                    oe_element = (if wt_focus tree = [] then None
                                  else Some (hd (wt_focus tree))) \<rparr>])
       \<and> (\<forall>be. te_browserEvent e = Some be \<and> is_MouseEvent be \<longrightarrow>
            snd (nav_onDidChangeFocus options tree e)
              = onSelection (fst (nav_onDidChangeFocus options tree e))
                  \<lparr> te_elements = wt_focus tree, te_browserEvent = Some be \<rparr>)"
proof -
  let ?tree' = "wt_onDidChangeSelection (tree\<lparr> wt_selection := wt_focus tree \<rparr>)"
  have sel: "wt_selection ?tree' = wt_focus tree"
    by (simp add: wt_onDidChangeSelection_def Let_def)
  have set: "setSelection (wt_focus tree) b tree
      = (?tree', onSelection ?tree' \<lparr> te_elements = wt_focus tree, te_browserEvent = b \<rparr>)"
    for b
    by (simp add: setSelection_def Let_def)
  have none: "onSelection ?tree' \<lparr> te_elements = wt_focus tree, te_browserEvent = None \<rparr> = []"
    by (simp add: onSelection_def)
  have own: "open_resource ?tree' True False False
      = [\<lparr> oe_editorOptions =
            \<lparr> eo_preserveFocus = True, eo_pinned = False, eo_revealIfVisible = True \<rparr>,
          oe_sideBySide = False,
          oe_element = (if wt_focus tree = [] then None else Some (hd (wt_focus tree))) \<rparr>]"
    using sel by (cases "wt_focus tree") (simp_all add: open_resource_def)
  have run: "nav_onDidChangeFocus options tree e = onFocus tree e"
    using assms by (simp add: nav_onDidChangeFocus_def)
  show ?thesis
    unfolding run
    using sel none own
    by (cases "te_browserEvent e") (simp_all add: onFocus_def set Let_def)
qed


theorem onFocus_with_openOnFocus_witness:
  "snd (nav_onDidChangeFocus (Some \<lparr> openOnFocus = True \<rparr>)
     \<lparr> wt_selection = [], wt_focus = [6::nat], wt_openOnSingleClick = False,
       hasSelectionOrFocus = True, hasDoubleSelection = False, hasMultiSelection = False,
       wt_useAltAsMultipleSelectionModifier = False, wt_updateOptions_calls = [] \<rparr>
     \<lparr> te_elements = [6], te_browserEvent = Some (TouchEvent ''touchend'' 0 False False False) \<rparr>)
   = [\<lparr> oe_editorOptions =
         \<lparr> eo_preserveFocus = True, eo_pinned = False, eo_revealIfVisible = True \<rparr>,
       oe_sideBySide = False, oe_element = Some 6 \<rparr>]
   \<and> wt_selection (fst (nav_onDidChangeFocus (Some \<lparr> openOnFocus = True \<rparr>)
     \<lparr> wt_selection = [], wt_focus = [6::nat], wt_openOnSingleClick = False,
       hasSelectionOrFocus = True, hasDoubleSelection = False, hasMultiSelection = False,
       wt_useAltAsMultipleSelectionModifier = False, wt_updateOptions_calls = [] \<rparr>
     \<lparr> te_elements = [6], te_browserEvent = Some (TouchEvent ''touchend'' 0 False False False) \<rparr>))
     = [6]"
proof -
  let ?tree = "\<lparr> wt_selection = [], wt_focus = [6::nat], wt_openOnSingleClick = False,
       hasSelectionOrFocus = True, hasDoubleSelection = False, hasMultiSelection = False,
       wt_useAltAsMultipleSelectionModifier = False, wt_updateOptions_calls = [] \<rparr>"
  let ?be = "TouchEvent ''touchend'' 0 False False False"
  let ?e = "\<lparr> te_elements = [6::nat], te_browserEvent = Some ?be \<rparr>"
  let ?nav = "nav_onDidChangeFocus (Some \<lparr> openOnFocus = True \<rparr>) ?tree ?e"
  have a: "Some \<lparr> openOnFocus = True \<rparr> = Some \<lparr> openOnFocus = True \<rparr>"
    "openOnFocus \<lparr> openOnFocus = True \<rparr>" by simp_all
  note t = onFocus_with_openOnFocus [OF a, of ?tree ?e]
  have tree': "fst ?nav = wt_onDidChangeSelection (?tree\<lparr> wt_selection := [6] \<rparr>)"
    using t [THEN conjunct1] by simp
  have sel: "wt_selection (fst ?nav) = [6]"
    using t [THEN conjunct2, THEN conjunct1] by simp
  have fired: "snd ?nav
      = onSelection (fst ?nav) \<lparr> te_elements = [6], te_browserEvent = Some ?be \<rparr>
        @ [\<lparr> oe_editorOptions =
              \<lparr> eo_preserveFocus = True, eo_pinned = False, eo_revealIfVisible = True \<rparr>,
            oe_sideBySide = False, oe_element = Some 6 \<rparr>]"
    using t [THEN conjunct2, THEN conjunct2, THEN conjunct2, THEN conjunct1, THEN spec, of ?be]
    by simp
  have quiet: "onSelection (fst ?nav) \<lparr> te_elements = [6], te_browserEvent = Some ?be \<rparr> = []"
    unfolding tree' by (simp add: onSelection_def wt_onDidChangeSelection_def Let_def)
  show ?thesis
    unfolding fired quiet using sel by simp
qed

text \<open>
  Claim C7 as first stated, with exactly one open event for a browser event that is not a
  mouse event and none for a mouse event, fails. On a tree that opens on single click and
  has one focused element, a keyboard focus change fires two open events, the first from
  \<open>onSelection\<close> while \<open>setSelection\<close> runs and the second from the focus handler,
  and a focus change by a mouse click fires one, from \<open>onSelection\<close>.
\<close>

theorem onFocus_fires_with_selection_listener:
  "snd (nav_onDidChangeFocus (Some \<lparr> openOnFocus = True \<rparr>)
     \<lparr> wt_selection = [], wt_focus = [6::nat], wt_openOnSingleClick = True,
       hasSelectionOrFocus = True, hasDoubleSelection = False, hasMultiSelection = False,
       wt_useAltAsMultipleSelectionModifier = False, wt_updateOptions_calls = [] \<rparr>
     \<lparr> te_elements = [6], te_browserEvent = Some (KeyboardEvent ''keydown'' 0 None) \<rparr>)
   = [\<lparr> oe_editorOptions =
         \<lparr> eo_preserveFocus = True, eo_pinned = False, eo_revealIfVisible = True \<rparr>,
       oe_sideBySide = False, oe_element = Some 6 \<rparr>,
      \<lparr> oe_editorOptions =
         \<lparr> eo_preserveFocus = True, eo_pinned = False, eo_revealIfVisible = True \<rparr>,
       oe_sideBySide = False, oe_element = Some 6 \<rparr>]
   \<and> snd (nav_onDidChangeFocus (Some \<lparr> openOnFocus = True \<rparr>)
     \<lparr> wt_selection = [], wt_focus = [6::nat], wt_openOnSingleClick = True,
       hasSelectionOrFocus = True, hasDoubleSelection = False, hasMultiSelection = False,
       wt_useAltAsMultipleSelectionModifier = False, wt_updateOptions_calls = [] \<rparr>
     \<lparr> te_elements = [6],
       te_browserEvent = Some (MouseEvent ''click'' 1 0 False False False) \<rparr>)
   = [\<lparr> oe_editorOptions =
         \<lparr> eo_preserveFocus = True, eo_pinned = False, eo_revealIfVisible = True \<rparr>,
       oe_sideBySide = False, oe_element = Some 6 \<rparr>]"
  by (simp add: nav_onDidChangeFocus_def onFocus_def setSelection_def onSelection_def
      open_resource_def wt_onDidChangeSelection_def Let_def)

section \<open>Properties of the keyboard navigation event filter\<close>

lemma length_run_filter:
  "length (run_filter softDispatch inChord events) = length events"
  by (induction events arbitrary: inChord)
     (auto simp: keyboardNavigationEventFilter_def Let_def split: option.splits)

lemma run_filter_in_chord_head:
  "events \<noteq> [] \<Longrightarrow> fst (run_filter softDispatch True events ! 0) = False"
  by (cases events) (auto simp: keyboardNavigationEventFilter_def)

lemma run_filter_after_chord:
  assumes "n < length events"
    and "snd (run_filter softDispatch inChord events ! n) = Some (Some r)"
    and "enterChord r"
  shows "fst (run_filter softDispatch inChord events ! n) = False
       \<and> (Suc n < length events \<longrightarrow>
            fst (run_filter softDispatch inChord events ! Suc n) = False)"
  using assms
proof (induction events arbitrary: inChord n)
  case Nil
  then show ?case by simp
next
  case (Cons event events)
  show ?case
  proof (cases n)
    case 0
    with Cons.prems have asked:
      "snd (snd (keyboardNavigationEventFilter softDispatch inChord event)) = Some (Some r)"
      by (auto split: prod.splits)
    with \<open>enterChord r\<close> have step:
      "keyboardNavigationEventFilter softDispatch inChord event = (False, True, Some (Some r))"
      by (auto simp: keyboardNavigationEventFilter_def Let_def split: if_splits option.splits)
    show ?thesis
      using 0 step run_filter_in_chord_head [of events softDispatch] by auto
  next
    case (Suc m)
    obtain a c q where step:
      "keyboardNavigationEventFilter softDispatch inChord event = (a, c, q)"
      by (cases "keyboardNavigationEventFilter softDispatch inChord event") auto
    from Cons.prems Suc step have "m < length events"
      and "snd (run_filter softDispatch c events ! m) = Some (Some r)"
      by auto
    from Cons.IH [OF this \<open>enterChord r\<close>] show ?thesis
      using Suc step by auto
  qed
qed

lemma run_filter_asked:
  "n < length events \<Longrightarrow> snd (run_filter softDispatch inChord events ! n) = Some x \<Longrightarrow>
   x = softDispatch (events ! n)"
proof (induction events arbitrary: inChord n)
  case Nil
  then show ?case by simp
next
  case (Cons event events)
  show ?case
  proof (cases n)
    case 0
    with Cons.prems show ?thesis
      by (auto simp: keyboardNavigationEventFilter_def Let_def
          split: prod.splits if_splits option.splits)
  next
    case (Suc m)
    with Cons.prems Cons.IH [of m] show ?thesis
      by (auto split: prod.splits)
  qed
qed

lemma run_filter_rejects_chord:
  "n < length events \<Longrightarrow> softDispatch (events ! n) = Some r \<Longrightarrow> enterChord r \<Longrightarrow>
   fst (run_filter softDispatch inChord events ! n) = False"
proof (induction events arbitrary: inChord n)
  case Nil
  then show ?case by simp
next
  case (Cons event events)
  show ?case
  proof (cases n)
    case 0
    with Cons.prems show ?thesis
      by (auto simp: keyboardNavigationEventFilter_def Let_def split: prod.splits)
  next
    case (Suc m)
    with Cons.prems Cons.IH [of m] show ?thesis
      by (auto split: prod.splits)
  qed
qed

text \<open>
  Claim C10, amended. Feed any sequence of events to a filter made by
  \<open>createKeyboardNavigationEventFilter\<close>. If the keybinding service's soft dispatch of
  event \<open>n\<close> reports \<open>enterChord\<close>, the filter rejects event \<open>n\<close>. If moreover the
  filter did soft-dispatch event \<open>n\<close> (it does so unless it is rejecting event \<open>n\<close>
  as the key that follows a chord), it also rejects event \<open>n + 1\<close>, whatever that
  event is.
\<close>

theorem filter_rejects_chord_and_next_event:
  assumes "n < length events"
    and "softDispatch (events ! n) = Some r"
    and "enterChord r"
  shows "fst (createKeyboardNavigationEventFilter softDispatch events ! n) = False
       \<and> (snd (createKeyboardNavigationEventFilter softDispatch events ! n) \<noteq> None
            \<and> Suc n < length events \<longrightarrow>
            fst (createKeyboardNavigationEventFilter softDispatch events ! Suc n) = False)"
proof -
  let ?run = "run_filter softDispatch False events"
  have here: "fst (?run ! n) = False"
    using assms by (rule run_filter_rejects_chord)
  have "fst (?run ! Suc n) = False" if asked: "snd (?run ! n) \<noteq> None" and "Suc n < length events"
  proof -
    from asked obtain x where x: "snd (?run ! n) = Some x" by auto
    with assms(1) have "x = softDispatch (events ! n)" by (rule run_filter_asked)
    with x assms(2) have "snd (?run ! n) = Some (Some r)" by simp
    from run_filter_after_chord [OF assms(1) this assms(3)] that(2) show ?thesis by simp
  qed
  with here show ?thesis by (simp add: createKeyboardNavigationEventFilter_def)
qed

theorem filter_rejects_chord_and_next_event_witness:
  "map fst (createKeyboardNavigationEventFilter
     [''ctrl+k'' \<mapsto> \<lparr> enterChord = True, commandId = None \<rparr>]
     [''a'', ''ctrl+k'', ''a'', ''a'']) = [True, False, False, True]"
proof -
  let ?sd = "[''ctrl+k'' \<mapsto> \<lparr> enterChord = True, commandId = None \<rparr>]"
  let ?es = "[''a'', ''ctrl+k'', ''a'', ''a'']"
  let ?run = "createKeyboardNavigationEventFilter ?sd ?es"
  have len: "length ?run = 4"
    unfolding createKeyboardNavigationEventFilter_def length_run_filter by simp
  have asked: "snd (?run ! 1) \<noteq> None"
    by (simp add: createKeyboardNavigationEventFilter_def keyboardNavigationEventFilter_def)
  have "fst (?run ! 1) = False \<and> fst (?run ! Suc 1) = False"
    using filter_rejects_chord_and_next_event
      [of 1 ?es ?sd "\<lparr> enterChord = True, commandId = None \<rparr>"] asked
    by simp
  moreover have "fst (?run ! 0) = True" "fst (?run ! 3) = True"
    by (simp_all add: createKeyboardNavigationEventFilter_def keyboardNavigationEventFilter_def)
  ultimately have "map fst ?run = [True, False, False, True]"
    using len by (auto simp: list_eq_iff_nth_eq nth_Cons' numeral_eq_Suc less_Suc_eq)
  then show ?thesis .
qed

text \<open>
  Claim C10 as first stated, without the condition that the filter soft-dispatched
  event \<open>n\<close>, fails. Let the soft dispatch of \<^verbatim>\<open>ctrl+k\<close> report \<open>enterChord\<close>
  and feed the filter \<^verbatim>\<open>ctrl+k\<close>, \<^verbatim>\<open>ctrl+k\<close>, \<^verbatim>\<open>a\<close>. The second
  \<^verbatim>\<open>ctrl+k\<close> is rejected as the key after the chord, without a soft dispatch, and the
  filter then accepts \<^verbatim>\<open>a\<close>, although it follows an event whose soft dispatch reports
  \<open>enterChord\<close>.
\<close>

theorem filter_accepts_event_after_undispatched_chord_key:
  "[''ctrl+k'' \<mapsto> \<lparr> enterChord = True, commandId = None \<rparr>]
     ([''ctrl+k'', ''ctrl+k'', ''a''] ! 1) = Some \<lparr> enterChord = True, commandId = None \<rparr>
   \<and> enterChord \<lparr> enterChord = True, commandId = None \<rparr>
   \<and> fst (createKeyboardNavigationEventFilter
            [''ctrl+k'' \<mapsto> \<lparr> enterChord = True, commandId = None \<rparr>]
            [''ctrl+k'', ''ctrl+k'', ''a''] ! Suc 1) = True"
  by (simp add: createKeyboardNavigationEventFilter_def keyboardNavigationEventFilter_def)

section \<open>Properties of ListService\<close>


lemma indexOf_notin: "x \<notin> set xs \<Longrightarrow> indexOf xs x = -1"
  by (induction xs) (auto simp: Let_def)

lemma indexOf_in: "x \<in> set xs \<Longrightarrow> 0 \<le> indexOf xs x \<and> indexOf xs x < int (length xs)"
  by (induction xs) (auto simp: Let_def)

lemma splice1_Cons_0: "splice1 0 (x # xs) = xs"
  by (simp add: splice1_def)

lemma splice1_Cons_Suc: "0 \<le> i \<Longrightarrow> splice1 (i + 1) (y # ys) = y # splice1 i ys"
  by (simp add: splice1_def Let_def nat_add_distrib min_def)

lemma splice1_indexOf: "x \<in> set xs \<Longrightarrow> splice1 (indexOf xs x) xs = remove1 x xs"
proof (induction xs)
  case Nil
  then show ?case by simp
next
  case (Cons y ys)
  show ?case
  proof (cases "y = x")
    case True
    then show ?thesis by (simp add: splice1_Cons_0)
  next
    case False
    with Cons.prems have mem: "x \<in> set ys" by simp
    then have "0 \<le> indexOf ys x" using indexOf_in by fastforce
    with False mem Cons.IH show ?thesis
      by (simp add: Let_def splice1_Cons_Suc)
  qed
qed

lemma splice1_minus_one: "splice1 (-1) xs = butlast xs"
  by (cases xs rule: rev_cases) (auto simp: splice1_def Let_def)

lemma set_splice1_subset: "set (splice1 i xs) \<subseteq> set xs"
  by (auto simp: splice1_def Let_def dest: in_set_takeD in_set_dropD)

lemma splice1_indexOf_cases:
  "splice1 (indexOf xs x) xs = (if x \<in> set xs then remove1 x xs else butlast xs)"
  by (simp add: splice1_indexOf indexOf_notin splice1_minus_one)

lemma fold_onDidDispose_listener:
  "fold onDidDispose_listener rs s =
     s\<lparr> svc_lists := filter (\<lambda>l. l \<notin> set rs) (svc_lists s),
        lastFocusedWidget :=
          (if \<exists>r \<in> set rs. lastFocusedWidget s = Some (rl_widget r) then None
           else lastFocusedWidget s) \<rparr>"
proof (induction rs arbitrary: s)
  case Nil
  then show ?case by simp
next
  case (Cons r rs)
  show ?case
    by (simp add: Cons.IH) (auto simp: onDidDispose_listener_def Let_def intro: filter_cong)
qed

lemma fold_onDidFocus_listener:
  "\<forall>r \<in> set rs. rl_widget r = w \<Longrightarrow>
   fold onDidFocus_listener rs s = (if rs = [] then s else s\<lparr> lastFocusedWidget := Some w \<rparr>)"
  by (induction rs arbitrary: s) (auto simp: onDidFocus_listener_def)

lemma registered_iff: "registered w s = (w \<in> rl_widget ` set (svc_lists s))"
  by (auto simp: registered_def list_ex_iff)

lemma attached_iff: "attached w s = (w \<in> rl_widget ` set (svc_listeners s))"
  by (auto simp: attached_def list_ex_iff)

lemma distinct_map_filter': "distinct (map f xs) \<Longrightarrow> distinct (map f (filter P xs))"
  by (induction xs) auto

lemma distinct_map_remove1: "distinct (map f xs) \<Longrightarrow> distinct (map f (remove1 x xs))"
  by (induction xs) (auto dest: set_remove1_subset [THEN subsetD])

lemma distinct_map_butlast: "distinct (map f xs) \<Longrightarrow> distinct (map f (butlast xs))"
  by (simp add: map_butlast distinct_butlast)

lemma dispose_registration_lists:
  "svc_lists (dispose_registration r s)
     = (if r \<in> set (svc_lists s) then remove1 r (svc_lists s) else butlast (svc_lists s))"
  by (simp add: dispose_registration_def splice1_indexOf_cases)

lemma register_inv: "svc_inv s \<Longrightarrow> svc_inv (snd (register w x h a s))"
  by (auto simp: svc_inv_def register_def Let_def list_ex_iff)

lemma dispose_registration_inv: "svc_inv s \<Longrightarrow> svc_inv (dispose_registration r s)"
proof -
  assume inv: "svc_inv s"
  have sub: "set (svc_lists (dispose_registration r s)) \<subseteq> set (svc_lists s) - {r}"
  proof (cases "r \<in> set (svc_lists s)")
    case True
    from inv have "distinct (svc_lists s)"
      by (auto simp: svc_inv_def dest: distinct_map [THEN iffD1])
    with True show ?thesis by (simp add: dispose_registration_lists)
  next
    case False
    then show ?thesis
      by (auto simp: dispose_registration_lists dest: in_set_butlastD)
  qed
  have "distinct (map rl_widget (svc_lists (dispose_registration r s)))"
    using inv by (simp add: dispose_registration_lists svc_inv_def
        distinct_map_remove1 distinct_map_butlast)
  moreover have "set (svc_lists (dispose_registration r s))
      \<subseteq> set (svc_listeners (dispose_registration r s))"
    using sub inv by (auto simp: svc_inv_def dispose_registration_def)
  ultimately show ?thesis by (simp add: svc_inv_def)
qed

lemma fire_onDidFocus_fields:
  "svc_lists (fire_onDidFocus w s) = svc_lists s"
  "svc_listeners (fire_onDidFocus w s) = svc_listeners s"
  "svc_disposed_registered (fire_onDidFocus w s) = svc_disposed_registered s"
  "lastFocusedWidget (fire_onDidFocus w s)
     = (if \<exists>l \<in> set (svc_listeners s). rl_widget l = w then Some w else lastFocusedWidget s)"
  by (auto simp: fire_onDidFocus_def fold_onDidFocus_listener [where w = w] filter_empty_conv)

lemma fire_onDidDispose_fields:
  "svc_lists (fire_onDidDispose w s)
     = filter (\<lambda>l. \<not> (rl_widget l = w \<and> l \<in> set (svc_listeners s))) (svc_lists s)"
  "svc_listeners (fire_onDidDispose w s) = svc_listeners s"
  "svc_disposed_registered (fire_onDidDispose w s)
     = (if registered w s \<or> attached w s then insert w (svc_disposed_registered s)
        else svc_disposed_registered s)"
  "lastFocusedWidget (fire_onDidDispose w s)
     = (if lastFocusedWidget s = Some w \<and> (\<exists>l \<in> set (svc_listeners s). rl_widget l = w)
        then None else lastFocusedWidget s)"
  by (auto simp: fire_onDidDispose_def fold_onDidDispose_listener Let_def intro: filter_cong)

lemma fire_onDidFocus_inv: "svc_inv s \<Longrightarrow> svc_inv (fire_onDidFocus w s)"
  by (simp add: svc_inv_def fire_onDidFocus_fields)

lemma fire_onDidDispose_inv: "svc_inv s \<Longrightarrow> svc_inv (fire_onDidDispose w s)"
  by (auto simp: svc_inv_def fire_onDidDispose_fields distinct_map_filter')

lemma step_inv: "svc_inv s \<Longrightarrow> svc_inv (step a s)"
  by (cases a)
     (simp_all add: register_inv dispose_registration_inv fire_onDidFocus_inv
        fire_onDidDispose_inv)

lemma fold_step_inv: "svc_inv s \<Longrightarrow> svc_inv (fold step history s)"
  by (induction history arbitrary: s) (simp_all add: step_inv)

lemma run_inv: "svc_inv (run history)"
  unfolding run_def by (rule fold_step_inv) (simp add: svc_inv_def ListService_def)

lemma step_no_stale_focus:
  assumes "svc_inv s" and "no_stale_focus gone s" and "life_cycle gone (a # history)"
  shows "no_stale_focus (gone_after a gone) (step a s) \<and> life_cycle (gone_after a gone) history"
proof (cases a)
  case (Register w x h act)
  with assms show ?thesis
    by (auto simp: no_stale_focus_def register_def Let_def)
next
  case (DisposeRegistration r)
  with assms show ?thesis
    by (auto simp: no_stale_focus_def dispose_registration_def)
next
  case (WidgetFocus w)
  with assms show ?thesis
    by (auto simp: no_stale_focus_def fire_onDidFocus_fields)
next
  case (WidgetDispose w)
  have "registered w s \<or> attached w s \<Longrightarrow> \<exists>l \<in> set (svc_listeners s). rl_widget l = w"
    using assms(1) by (auto simp: registered_iff attached_iff svc_inv_def)
  with WidgetDispose assms show ?thesis
    by (auto simp: no_stale_focus_def fire_onDidDispose_fields)
qed

lemma fold_step_no_stale_focus:
  "svc_inv s \<Longrightarrow> no_stale_focus gone s \<Longrightarrow> life_cycle gone history \<Longrightarrow>
   \<exists>gone'. no_stale_focus gone' (fold step history s)"
proof (induction history arbitrary: s gone)
  case Nil
  then show ?case by auto
next
  case (Cons a history)
  from step_no_stale_focus [OF Cons.prems]
  have "no_stale_focus (gone_after a gone) (step a s)"
    and "life_cycle (gone_after a gone) history" by simp_all
  from Cons.IH [OF step_inv [OF Cons.prems(1)] this] show ?case by simp
qed


lemma register_result:
  "register w x h a s =
     (if registered w s
      then (Inl (Error ''Cannot register the same widget multiple times''), s)
      else (Inr \<lparr> rl_ref = svc_next_ref s, rl_widget = w, rl_extraContextKeys = x \<rparr>,
            s\<lparr> svc_next_ref := Suc (svc_next_ref s),
               svc_lists := svc_lists s @
                 [\<lparr> rl_ref = svc_next_ref s, rl_widget = w, rl_extraContextKeys = x \<rparr>],
               lastFocusedWidget := (if Some h = a then Some w else lastFocusedWidget s),
               svc_listeners := svc_listeners s @
                 [\<lparr> rl_ref = svc_next_ref s, rl_widget = w, rl_extraContextKeys = x \<rparr>] \<rparr>))"
  by (simp add: register_def registered_def Let_def)

lemma dispose_registration_unregisters:
  assumes "svc_inv s" and "\<forall>l \<in> set (svc_lists s). rl_widget l = rl_widget r \<longrightarrow> l = r"
  shows "\<not> registered (rl_widget r) (dispose_registration r s)"
proof (cases "r \<in> set (svc_lists s)")
  case True
  from assms(1) have "distinct (svc_lists s)"
    by (auto simp: svc_inv_def dest: distinct_map [THEN iffD1])
  with True assms(2) show ?thesis
    by (auto simp: registered_iff dispose_registration_lists)
next
  case False
  with assms(2) show ?thesis
    by (auto simp: registered_iff dispose_registration_lists dest: in_set_butlastD)
qed

lemmas service_eval =
  run_def ListService_def register_def dispose_registration_def fire_onDidFocus_def
  fire_onDidDispose_def onDidFocus_listener_def onDidDispose_listener_def
  registered_def attached_def lastFocusedList_def splice1_def Let_def

text \<open>
  Claim C8. \<open>register\<close> throws the error \<^verbatim>\<open>Cannot register the same widget multiple
  times\<close> exactly when the widget is already in the list of registrations, and then
  the service is left as it was. Disposing the disposable that a successful
  \<open>register\<close> returned takes the widget's registration out of the list again, and the
  same widget can then be registered once more. The last part says the same of a
  disposal at any later moment of any history, as long as the list holds no other
  registration of that widget than the one being disposed.
\<close>

theorem register_error_and_disposal:
  "(\<exists>e. fst (register w x h a s) = Inl e) = registered w s
   \<and> (registered w s \<longrightarrow>
        register w x h a s
          = (Inl (Error ''Cannot register the same widget multiple times''), s))
   \<and> (\<forall>r s'. register w x h a s = (Inr r, s') \<longrightarrow>
        rl_widget r = w
      \<and> registered w s'
      \<and> svc_lists (dispose_registration r s') = svc_lists s
      \<and> \<not> registered w (dispose_registration r s')
      \<and> (\<exists>r'. fst (register w x' h' a' (dispose_registration r s')) = Inr r'))
   \<and> (\<forall>r. (\<forall>l \<in> set (svc_lists (run history)). rl_widget l = rl_widget r \<longrightarrow> l = r) \<longrightarrow>
        \<not> registered (rl_widget r) (dispose_registration r (run history))
      \<and> (\<exists>r'. fst (register (rl_widget r) x' h' a' (dispose_registration r (run history)))
               = Inr r'))"
proof -
  have 1: "(\<exists>e. fst (register w x h a s) = Inl e) = registered w s"
    by (simp add: register_result)
  have 2: "registered w s \<longrightarrow>
        register w x h a s
          = (Inl (Error ''Cannot register the same widget multiple times''), s)"
    by (simp add: register_result)
  have 3: "\<forall>r s'. register w x h a s = (Inr r, s') \<longrightarrow>
        rl_widget r = w
      \<and> registered w s'
      \<and> svc_lists (dispose_registration r s') = svc_lists s
      \<and> \<not> registered w (dispose_registration r s')
      \<and> (\<exists>r'. fst (register w x' h' a' (dispose_registration r s')) = Inr r')"
  proof (intro allI impI)
    fix r s'
    assume reg: "register w x h a s = (Inr r, s')"
    then have nr: "\<not> registered w s"
      by (auto simp: register_result split: if_splits)
    with reg have r: "r = \<lparr> rl_ref = svc_next_ref s, rl_widget = w, rl_extraContextKeys = x \<rparr>"
      and lists: "svc_lists s' = svc_lists s @ [r]"
      by (auto simp: register_result)
    have "rl_widget r = w" using r by simp
    with nr have notin: "r \<notin> set (svc_lists s)"
      by (auto simp: registered_iff)
    have restored: "svc_lists (dispose_registration r s') = svc_lists s"
      using lists notin by (simp add: dispose_registration_lists remove1_append)
    then have gone: "\<not> registered w (dispose_registration r s')"
      using nr by (simp add: registered_iff)
    show "rl_widget r = w
      \<and> registered w s'
      \<and> svc_lists (dispose_registration r s') = svc_lists s
      \<and> \<not> registered w (dispose_registration r s')
      \<and> (\<exists>r'. fst (register w x' h' a' (dispose_registration r s')) = Inr r')"
      using r lists restored gone by (simp add: registered_iff register_result)
  qed
  have 4: "\<forall>r. (\<forall>l \<in> set (svc_lists (run history)). rl_widget l = rl_widget r \<longrightarrow> l = r) \<longrightarrow>
        \<not> registered (rl_widget r) (dispose_registration r (run history))
      \<and> (\<exists>r'. fst (register (rl_widget r) x' h' a' (dispose_registration r (run history)))
               = Inr r')"
  proof (intro allI impI)
    fix r
    assume only: "\<forall>l \<in> set (svc_lists (run history)). rl_widget l = rl_widget r \<longrightarrow> l = r"
    have "\<not> registered (rl_widget r) (dispose_registration r (run history))"
      using run_inv only by (rule dispose_registration_unregisters)
    then show "\<not> registered (rl_widget r) (dispose_registration r (run history))
      \<and> (\<exists>r'. fst (register (rl_widget r) x' h' a' (dispose_registration r (run history)))
               = Inr r')"
      by (simp add: register_result)
  qed
  from 1 2 3 4 show ?thesis by blast
qed

theorem register_error_and_disposal_witness:
  "register (1::nat) None 10 None (run [Register 1 None 10 None])
     = (Inl (Error ''Cannot register the same widget multiple times''),
        run [Register 1 None 10 None])
   \<and> \<not> registered (1::nat)
        (dispose_registration \<lparr> rl_ref = 0, rl_widget = 1, rl_extraContextKeys = None \<rparr>
           (run [Register 1 None 10 None, Register 2 None 20 None]))
   \<and> (\<exists>r'. fst (register (1::nat) None 10 None
        (dispose_registration \<lparr> rl_ref = 0, rl_widget = 1, rl_extraContextKeys = None \<rparr>
           (run [Register 1 None 10 None, Register 2 None 20 None]))) = Inr r')"
proof -
  let ?r = "\<lparr> rl_ref = 0, rl_widget = 1::nat, rl_extraContextKeys = None \<rparr>"
  let ?h1 = "[Register (1::nat) None 10 None]"
  let ?h2 = "[Register (1::nat) None 10 None, Register 2 None 20 None]"
  have reg: "registered 1 (run ?h1)"
    by (simp add: service_eval)
  have only: "\<forall>l \<in> set (svc_lists (run ?h2)). rl_widget l = rl_widget ?r \<longrightarrow> l = ?r"
    by (simp add: service_eval)
  have "register 1 None 10 None (run ?h1)
     = (Inl (Error ''Cannot register the same widget multiple times''), run ?h1)"
    using register_error_and_disposal [of 1 None 10 None "run ?h1"] reg by blast
  moreover have "\<not> registered 1 (dispose_registration ?r (run ?h2))
   \<and> (\<exists>r'. fst (register 1 None 10 None (dispose_registration ?r (run ?h2))) = Inr r')"
    using register_error_and_disposal
      [of 1 None 10 None "run ?h1" None 10 None ?h2,
       THEN conjunct2, THEN conjunct2, THEN conjunct2, THEN spec, of ?r] only
    by simp
  ultimately show ?thesis by blast
qed

text \<open>
  Claim C4. For a service in any state a history can reach: right after a successful
  \<open>register\<close> of a widget whose HTML element is the document's active element,
  \<open>lastFocusedList\<close> is that widget; a registered widget is attached, and after an
  attached widget fires \<^verbatim>\<open>onDidFocus\<close>, \<open>lastFocusedList\<close> is that widget; after
  an attached widget that is the last focused one fires \<^verbatim>\<open>onDidDispose\<close>,
  \<open>lastFocusedList\<close> is undefined and the widget is no longer registered. Hence, in
  every history that respects the widgets' life cycle, \<open>lastFocusedList\<close> is never a
  widget that was disposed while it was registered.
\<close>

theorem lastFocusedList_follows_focus:
  "(\<forall>r s'. register w x h a (run history) = (Inr r, s') \<and> Some h = a \<longrightarrow>
        lastFocusedList s' = Some w)
   \<and> (registered w (run history) \<longrightarrow> attached w (run history))
   \<and> (attached w (run history) \<longrightarrow>
        lastFocusedList (fire_onDidFocus w (run history)) = Some w)
   \<and> (attached w (run history) \<and> lastFocusedList (run history) = Some w \<longrightarrow>
        lastFocusedList (fire_onDidDispose w (run history)) = None
      \<and> \<not> registered w (fire_onDidDispose w (run history)))
   \<and> (life_cycle {} history \<longrightarrow>
        (\<forall>v. lastFocusedList (run history) = Some v \<longrightarrow>
             v \<notin> svc_disposed_registered (run history)))"
proof -
  have 1: "\<forall>r s'. register w x h a (run history) = (Inr r, s') \<and> Some h = a \<longrightarrow>
        lastFocusedList s' = Some w"
    by (auto simp: register_result lastFocusedList_def split: if_splits)
  have 2: "registered w (run history) \<longrightarrow> attached w (run history)"
    using run_inv [of history] by (auto simp: registered_iff attached_iff svc_inv_def)
  have 3: "attached w (run history) \<longrightarrow>
        lastFocusedList (fire_onDidFocus w (run history)) = Some w"
    by (auto simp: lastFocusedList_def fire_onDidFocus_fields attached_iff)
  have 4: "attached w (run history) \<and> lastFocusedList (run history) = Some w \<longrightarrow>
        lastFocusedList (fire_onDidDispose w (run history)) = None
      \<and> \<not> registered w (fire_onDidDispose w (run history))"
    using run_inv [of history]
    by (auto simp: lastFocusedList_def fire_onDidDispose_fields registered_iff attached_iff
        svc_inv_def)
  have 5: "life_cycle {} history \<longrightarrow>
        (\<forall>v. lastFocusedList (run history) = Some v \<longrightarrow>
             v \<notin> svc_disposed_registered (run history))"
  proof
    assume lc: "life_cycle {} history"
    have "svc_inv (ListService :: 'a list_service)"
      "no_stale_focus {} (ListService :: 'a list_service)"
      by (simp_all add: svc_inv_def no_stale_focus_def ListService_def)
    from fold_step_no_stale_focus [OF this lc]
    obtain gone' where "no_stale_focus gone' (run history)"
      by (auto simp: run_def)
    then show "\<forall>v. lastFocusedList (run history) = Some v \<longrightarrow>
             v \<notin> svc_disposed_registered (run history)"
      by (auto simp: no_stale_focus_def lastFocusedList_def)
  qed
  from 1 2 3 4 5 show ?thesis by blast
qed

theorem lastFocusedList_follows_focus_witness:
  "life_cycle {} [Register (1::nat) None 10 (Some 10), Register 2 None 20 None,
      WidgetFocus 2, WidgetDispose 2, WidgetFocus 1]
   \<and> lastFocusedList (run [Register (1::nat) None 10 (Some 10), Register 2 None 20 None,
      WidgetFocus 2, WidgetDispose 2, WidgetFocus 1]) = Some 1
   \<and> 1 \<notin> svc_disposed_registered (run [Register (1::nat) None 10 (Some 10),
      Register 2 None 20 None, WidgetFocus 2, WidgetDispose 2, WidgetFocus 1])
   \<and> 2 \<in> svc_disposed_registered (run [Register (1::nat) None 10 (Some 10),
      Register 2 None 20 None, WidgetFocus 2, WidgetDispose 2, WidgetFocus 1])
   \<and> lastFocusedList (fire_onDidDispose 1 (run [Register (1::nat) None 10 (Some 10),
      Register 2 None 20 None, WidgetFocus 2, WidgetDispose 2, WidgetFocus 1])) = None"
proof -
  let ?h = "[Register (1::nat) None 10 (Some 10), Register 2 None 20 None,
      WidgetFocus 2, WidgetDispose 2, WidgetFocus 1]"
  have lc: "life_cycle {} ?h" by simp
  have foc: "lastFocusedList (run ?h) = Some 1"
    by (simp add: service_eval)
  have reg: "registered 1 (run ?h)"
    by (simp add: service_eval)
  have two: "2 \<in> svc_disposed_registered (run ?h)"
    by (simp add: service_eval)
  note t = lastFocusedList_follows_focus [of 1 None 10 None ?h]
  have "1 \<notin> svc_disposed_registered (run ?h)"
    using t lc foc by blast
  moreover have "lastFocusedList (fire_onDidDispose 1 (run ?h)) = None"
    using t reg foc by blast
  ultimately show ?thesis using lc foc two by blast
qed


text \<open>
  A remark on a registration that is disposed after its widget has fired
  \<^verbatim>\<open>onDidDispose\<close> (the workbench trees dispose their registration after the call of
  the base class's \<^verbatim>\<open>dispose\<close>). The listener has then already filtered the
  registration out, \<^verbatim>\<open>indexOf\<close> gives \<open>-1\<close>, and \<^verbatim>\<open>splice(-1, 1)\<close> removes the
  last registration in the list, which belongs to another widget.
\<close>

lemma disposal_after_onDidDispose_removes_last_registration:
  "svc_lists (run [Register (1::nat) None 10 None, Register 2 None 20 None])
     = [\<lparr> rl_ref = 0, rl_widget = 1, rl_extraContextKeys = None \<rparr>,
        \<lparr> rl_ref = 1, rl_widget = 2, rl_extraContextKeys = None \<rparr>]
   \<and> svc_lists (run [Register (1::nat) None 10 None, Register 2 None 20 None, WidgetDispose 1])
     = [\<lparr> rl_ref = 1, rl_widget = 2, rl_extraContextKeys = None \<rparr>]
   \<and> svc_lists (run [Register (1::nat) None 10 None, Register 2 None 20 None, WidgetDispose 1,
        DisposeRegistration \<lparr> rl_ref = 0, rl_widget = 1, rl_extraContextKeys = None \<rparr>])
     = []"
  by (simp add: service_eval)

section \<open>Properties of toWorkbenchListOptions and the tree constructors\<close>

lemma heap_ok_lt: "heap_ok h \<Longrightarrow> cells h a = Some obj \<Longrightarrow> a < next_free h"
  by (auto simp: heap_ok_def dom_def)

text \<open>
  Claim C9. Called on the caller's option bag in a well-formed store,
  \<open>toWorkbenchListOptions\<close> returns a new object and leaves every object that existed
  before the call as it was, the caller's option bag with all its fields in particular.
  In the returned options, \<^verbatim>\<open>multipleSelectionController\<close> is a newly made
  \<open>MultipleSelectionController\<close> when \<^verbatim>\<open>multipleSelectionSupport\<close> is not
  \<^verbatim>\<open>false\<close> and the caller supplied no controller, and it is the caller's value
  otherwise; \<^verbatim>\<open>openController\<close> is always a newly made \<open>WorkbenchOpenController\<close>
  that wraps whatever \<^verbatim>\<open>openController\<close> the caller supplied; every other property,
  the label provider apart, is copied from the caller's options.
\<close>

theorem toWorkbenchListOptions_new_object:
  assumes "heap_ok h" and "cells h options = Some (PlainObject props)"
  shows "\<exists>result disposables h'.
       toWorkbenchListOptions options cfg keybindingService h = Some (result, disposables, h')
     \<and> result \<notin> dom (cells h)
     \<and> (\<forall>a \<in> dom (cells h). cells h' a = cells h a)
     \<and> cells h' options = Some (PlainObject props)
     \<and> (get_field h options ''multipleSelectionSupport'' \<noteq> JBool False
          \<and> \<not> truthy (get_field h options ''multipleSelectionController'') \<longrightarrow>
          (\<exists>m. get_field h' result ''multipleSelectionController'' = JRef m
             \<and> m \<notin> dom (cells h)
             \<and> cells h' m = Some (MultipleSelectionControllerObject
                                    (MultipleSelectionController cfg))))
     \<and> (\<not> (get_field h options ''multipleSelectionSupport'' \<noteq> JBool False
             \<and> \<not> truthy (get_field h options ''multipleSelectionController'')) \<longrightarrow>
          get_field h' result ''multipleSelectionController''
            = get_field h options ''multipleSelectionController'')
     \<and> (\<exists>oc. get_field h' result ''openController'' = JRef oc
             \<and> oc \<notin> dom (cells h)
             \<and> cells h' oc = Some (WorkbenchOpenControllerObject
                                     (useSingleClickToOpen cfg)
                                     (get_field h options ''openController'')))
     \<and> (\<forall>k. k \<noteq> ''multipleSelectionController'' \<and> k \<noteq> ''openController''
              \<and> k \<noteq> ''keyboardNavigationLabelProvider'' \<longrightarrow>
            get_field h' result k = get_field h options k)"
proof -
  obtain c n where h: "h = \<lparr> cells = c, next_free = n \<rparr>" by (cases h) auto
  define gp where "gp = (\<lambda>k. case props k of Some v \<Rightarrow> v | None \<Rightarrow> JUndefined)"
  have c_opt: "c options = Some (PlainObject props)" using assms(2) h by simp
  have lt: "options < n" using heap_ok_lt [OF assms] h by simp
  have fresh: "\<And>a. n \<le> a \<Longrightarrow> c a = None"
    using assms(1) h by (fastforce simp: heap_ok_def dom_def)
  have old: "\<And>a. a \<in> dom c \<Longrightarrow> a < n"
    using assms(1) h by (auto simp: heap_ok_def)
  have gf: "\<And>c' nf k. c' options = Some (PlainObject props) \<Longrightarrow>
      get_field \<lparr> cells = c', next_free = nf \<rparr> options k = gp k"
    by (simp add: get_field_def gp_def)
  have gn: "\<And>c' nf k p. c' n = Some (PlainObject p) \<Longrightarrow>
      get_field \<lparr> cells = c', next_free = nf \<rparr> n k
        = (case p k of Some v \<Rightarrow> v | None \<Rightarrow> JUndefined)"
    by (simp add: get_field_def)
  have gfh: "\<And>k. get_field h options k = gp k"
    using c_opt h by (simp add: gf)
  define M where "M = (gp ''multipleSelectionSupport'' \<noteq> JBool False
                \<and> \<not> truthy (gp ''multipleSelectionController''))"
  define T where "T = truthy (gp ''keyboardNavigationLabelProvider'')"
  define oc where "oc = (if M then Suc (Suc n) else Suc n)"
  define c1 where "c1 = (if M then c(Suc n \<mapsto> MultipleSelectionControllerObject
                                               (MultipleSelectionController cfg)) else c)"
  define c2 where "c2 = c1(oc \<mapsto> WorkbenchOpenControllerObject (useSingleClickToOpen cfg)
                                   (gp ''openController''))"
  define c3 where "c3 = (if T then c2(Suc oc \<mapsto> KeyboardNavigationLabelProviderObject
                                     (gp ''keyboardNavigationLabelProvider'') keybindingService)
                         else c2)"
  define p1 where "p1 = (if M then props(''multipleSelectionController'' \<mapsto> JRef (Suc n))
                         else props)"
  define p2 where "p2 = p1(''openController'' \<mapsto> JRef oc)"
  define p3 where "p3 = (if T then p2(''keyboardNavigationLabelProvider'' \<mapsto> JRef (Suc oc))
                         else p2)"
  define h' where "h' = \<lparr> cells = c3(n \<mapsto> PlainObject p3),
                          next_free = (if T then Suc (Suc oc) else Suc oc) \<rparr>"
  have res: "toWorkbenchListOptions options cfg keybindingService h
               = Some (n, (if M then [Suc n] else []) @ [oc], h')"
    using c_opt lt fresh [of n]
    by (cases M; cases T)
       (simp_all add: h toWorkbenchListOptions_def alloc_def set_field_def gf Let_def
          M_def [symmetric] T_def [symmetric] h'_def oc_def c1_def c2_def c3_def
          p1_def p2_def p3_def)
  have n_new: "n \<notin> dom (cells h)"
    using fresh [of n] h by (simp add: dom_def)
  have oc_ge: "n < oc" "Suc n \<le> oc" by (simp_all add: oc_def)
  have frame: "\<forall>a \<in> dom (cells h). cells h' a = cells h a"
  proof
    fix a assume "a \<in> dom (cells h)"
    then have "a < n" using old h by simp
    then show "cells h' a = cells h a"
      using h by (simp add: h'_def c3_def c2_def c1_def oc_def)
  qed
  have keep: "cells h' options = Some (PlainObject props)"
    using frame assms(2) by (auto simp: dom_def)
  have get_result: "\<And>k. get_field h' n k = (case p3 k of Some v \<Rightarrow> v | None \<Rightarrow> JUndefined)"
    by (simp add: h'_def get_field_def)
  have msc_new: "M \<longrightarrow> (\<exists>m. get_field h' n ''multipleSelectionController'' = JRef m
             \<and> m \<notin> dom (cells h)
             \<and> cells h' m = Some (MultipleSelectionControllerObject
                                    (MultipleSelectionController cfg)))"
  proof
    assume M
    have "get_field h' n ''multipleSelectionController'' = JRef (Suc n)"
      using \<open>M\<close> by (simp add: get_result p3_def p2_def p1_def)
    moreover have "Suc n \<notin> dom (cells h)"
      using fresh [of "Suc n"] h by (simp add: dom_def)
    moreover have "cells h' (Suc n) = Some (MultipleSelectionControllerObject
                                    (MultipleSelectionController cfg))"
      using \<open>M\<close> by (simp add: h'_def c3_def c2_def c1_def oc_def)
    ultimately show "\<exists>m. get_field h' n ''multipleSelectionController'' = JRef m
             \<and> m \<notin> dom (cells h)
             \<and> cells h' m = Some (MultipleSelectionControllerObject
                                    (MultipleSelectionController cfg))"
      by blast
  qed
  have msc_kept: "\<not> M \<longrightarrow> get_field h' n ''multipleSelectionController''
            = gp ''multipleSelectionController''"
    by (simp add: get_result p3_def p2_def p1_def gp_def)
  have oc_new: "\<exists>oc. get_field h' n ''openController'' = JRef oc
             \<and> oc \<notin> dom (cells h)
             \<and> cells h' oc = Some (WorkbenchOpenControllerObject
                                     (useSingleClickToOpen cfg) (gp ''openController''))"
  proof -
    have "get_field h' n ''openController'' = JRef oc"
      by (simp add: get_result p3_def p2_def)
    moreover have "oc \<notin> dom (cells h)"
      using fresh [of oc] oc_ge h by (simp add: dom_def)
    moreover have "cells h' oc = Some (WorkbenchOpenControllerObject
                                     (useSingleClickToOpen cfg) (gp ''openController''))"
      using oc_ge by (simp add: h'_def c3_def c2_def)
    ultimately show ?thesis by blast
  qed
  have others: "\<forall>k. k \<noteq> ''multipleSelectionController'' \<and> k \<noteq> ''openController''
              \<and> k \<noteq> ''keyboardNavigationLabelProvider'' \<longrightarrow>
            get_field h' n k = gp k"
    by (simp add: get_result p3_def p2_def p1_def gp_def)
  show ?thesis
    unfolding gfh M_def [symmetric]
    apply (rule exI [of _ n])
    apply (rule exI [of _ "(if M then [Suc n] else []) @ [oc]"])
    apply (rule exI [of _ h'])
    apply (insert res n_new frame keep msc_new msc_kept oc_new others)
    apply (intro conjI; assumption)
    done
qed


theorem toWorkbenchListOptions_new_object_witness:
  "\<exists>result disposables h'.
     toWorkbenchListOptions 0 (\<lambda>k. JUndefined) (JRef 6)
       \<lparr> cells = [0 \<mapsto> PlainObject [''openController'' \<mapsto> JRef 7], 6 \<mapsto> ForeignObject,
                  7 \<mapsto> ForeignObject],
         next_free = 8 \<rparr> = Some (result, disposables, h')
   \<and> result \<notin> {0, 6, 7}
   \<and> cells h' 0 = Some (PlainObject [''openController'' \<mapsto> JRef 7])
   \<and> cells h' 7 = Some ForeignObject
   \<and> (\<exists>oc. get_field h' result ''openController'' = JRef oc
          \<and> cells h' oc = Some (WorkbenchOpenControllerObject True (JRef 7)))
   \<and> (\<exists>m. get_field h' result ''multipleSelectionController'' = JRef m
          \<and> cells h' m = Some (MultipleSelectionControllerObject
                                 \<lparr> msc_useAltAsMultipleSelectionModifier = False \<rparr>))"
proof -
  let ?cfg = "\<lambda>k :: string. JUndefined"
  let ?props = "[''openController'' \<mapsto> JRef 7]"
  let ?h = "\<lparr> cells = [0 \<mapsto> PlainObject ?props, 6 \<mapsto> ForeignObject, 7 \<mapsto> ForeignObject],
              next_free = 8 \<rparr>"
  have ok: "heap_ok ?h" by (auto simp: heap_ok_def)
  have opt: "cells ?h 0 = Some (PlainObject ?props)" by simp
  have d: "dom (cells ?h) = {0, 6, 7}" by auto
  have g: "get_field ?h 0 ''multipleSelectionSupport'' = JUndefined"
    "get_field ?h 0 ''multipleSelectionController'' = JUndefined"
    "get_field ?h 0 ''openController'' = JRef 7"
    by (simp_all add: get_field_def)
  have c: "useSingleClickToOpen ?cfg = True"
    "MultipleSelectionController ?cfg = \<lparr> msc_useAltAsMultipleSelectionModifier = False \<rparr>"
    by (simp_all add: useSingleClickToOpen_def MultipleSelectionController_def
        useAltAsMultipleSelectionModifier_def)
  from toWorkbenchListOptions_new_object [OF ok opt, of ?cfg "JRef 6"]
  obtain result disposables h' where r:
    "toWorkbenchListOptions 0 ?cfg (JRef 6) ?h = Some (result, disposables, h')"
    "result \<notin> dom (cells ?h)"
    "\<forall>a \<in> dom (cells ?h). cells h' a = cells ?h a"
    "\<exists>m. get_field h' result ''multipleSelectionController'' = JRef m
          \<and> m \<notin> dom (cells ?h)
          \<and> cells h' m = Some (MultipleSelectionControllerObject (MultipleSelectionController ?cfg))"
    "\<exists>oc. get_field h' result ''openController'' = JRef oc
          \<and> oc \<notin> dom (cells ?h)
          \<and> cells h' oc = Some (WorkbenchOpenControllerObject (useSingleClickToOpen ?cfg)
                                   (get_field ?h 0 ''openController''))"
    unfolding g by (elim exE conjE) (simp only: truthy.simps js_value.distinct simp_thms, blast)
  from r(3) have "cells h' 0 = cells ?h 0" "cells h' 7 = cells ?h 7"
    unfolding d by blast+
  then have keep: "cells h' 0 = Some (PlainObject ?props)" "cells h' 7 = Some ForeignObject"
    by simp_all
  show ?thesis
    apply (rule exI [of _ result], rule exI [of _ disposables], rule exI [of _ h'])
    apply (insert r(1) r(2) [unfolded d] keep r(4) [unfolded c] r(5) [unfolded c g])
    apply (intro conjI)
         apply assumption
        apply assumption
       apply assumption
      apply assumption
     apply blast
    apply blast
    done
qed

lemma toWorkbenchListOptions_defined:
  "cells h options = Some (PlainObject props) \<Longrightarrow>
   \<exists>r. toWorkbenchListOptions options cfg keybindingService h = Some r"
  by (simp add: toWorkbenchListOptions_def Let_def split: prod.splits)

text \<open>
  Claim C6. The options that the constructor of \<open>WorkbenchObjectTree\<close> (and of
  \<open>WorkbenchDataTree\<close> and \<open>WorkbenchAsyncDataTree\<close>, which repeat it) passes on
  have \<^verbatim>\<open>simpleKeyboardNavigation\<close> = (the setting
  \<^verbatim>\<open>workbench.list.keyboardNavigation\<close> is \<^verbatim>\<open>simple\<close>), \<^verbatim>\<open>filterOnType\<close> = (that
  setting is \<^verbatim>\<open>filter\<close>) and \<^verbatim>\<open>indent\<close> = the setting \<^verbatim>\<open>workbench.tree.indent\<close>,
  whatever the caller's options say. On a configuration change, \<open>updateOptions\<close> is
  called once for each of the settings open mode, indent and keyboard navigation that the
  change affects, in this order, with the values read from the new configuration, and it
  is not called otherwise.
\<close>

theorem tree_options_follow_configuration:
  assumes "cells h options = Some (PlainObject props)"
  shows "(\<exists>literal disposable h'.
            WorkbenchObjectTree_super_options options cfg keybindingService styleController
              styles automaticKeyboardNavigation eventFilter h = Some (literal, disposable, h')
          \<and> literal ''simpleKeyboardNavigation''
              = Some (JBool (cfg ''workbench.list.keyboardNavigation'' = JStr ''simple''))
          \<and> literal ''filterOnType''
              = Some (JBool (cfg ''workbench.list.keyboardNavigation'' = JStr ''filter''))
          \<and> literal ''indent'' = Some (cfg ''workbench.tree.indent''))
       \<and> wt_updateOptions_calls (wt_onDidChangeConfiguration e cfg' t)
           = wt_updateOptions_calls t
             @ (if affectsConfiguration e ''workbench.list.openMode''
                then [[''openOnSingleClick'' \<mapsto>
                         JBool (cfg' ''workbench.list.openMode'' \<noteq> JStr ''doubleClick'')]]
                else [])
             @ (if affectsConfiguration e ''workbench.tree.indent''
                then [[''indent'' \<mapsto> cfg' ''workbench.tree.indent'']]
                else [])
             @ (if affectsConfiguration e ''workbench.list.keyboardNavigation''
                then [[''simpleKeyboardNavigation'' \<mapsto>
                         JBool (cfg' ''workbench.list.keyboardNavigation'' = JStr ''simple''),
                       ''filterOnType'' \<mapsto>
                         JBool (cfg' ''workbench.list.keyboardNavigation'' = JStr ''filter'')]]
                else [])"
proof -
  from toWorkbenchListOptions_defined [OF assms, of cfg keybindingService]
  obtain wlo disp h' where r:
    "toWorkbenchListOptions options cfg keybindingService h = Some (wlo, disp, h')"
    by (metis prod_cases3)
  have super: "\<exists>literal disposable h'.
            WorkbenchObjectTree_super_options options cfg keybindingService styleController
              styles automaticKeyboardNavigation eventFilter h = Some (literal, disposable, h')
          \<and> literal ''simpleKeyboardNavigation''
              = Some (JBool (cfg ''workbench.list.keyboardNavigation'' = JStr ''simple''))
          \<and> literal ''filterOnType''
              = Some (JBool (cfg ''workbench.list.keyboardNavigation'' = JStr ''filter''))
          \<and> literal ''indent'' = Some (cfg ''workbench.tree.indent'')"
    using r
    by (simp add: WorkbenchObjectTree_super_options_def Let_def
        keyboardNavigationSettingKey_def treeIndentKey_def)
  have calls: "wt_updateOptions_calls (wt_onDidChangeConfiguration e cfg' t)
           = wt_updateOptions_calls t
             @ (if affectsConfiguration e ''workbench.list.openMode''
                then [[''openOnSingleClick'' \<mapsto>
                         JBool (cfg' ''workbench.list.openMode'' \<noteq> JStr ''doubleClick'')]]
                else [])
             @ (if affectsConfiguration e ''workbench.tree.indent''
                then [[''indent'' \<mapsto> cfg' ''workbench.tree.indent'']]
                else [])
             @ (if affectsConfiguration e ''workbench.list.keyboardNavigation''
                then [[''simpleKeyboardNavigation'' \<mapsto>
                         JBool (cfg' ''workbench.list.keyboardNavigation'' = JStr ''simple''),
                       ''filterOnType'' \<mapsto>
                         JBool (cfg' ''workbench.list.keyboardNavigation'' = JStr ''filter'')]]
                else [])"
    by (simp add: wt_onDidChangeConfiguration_def updateOptions_def Let_def
        useSingleClickToOpen_def openModeSettingKey_def multiSelectModifierSettingKey_def
        keyboardNavigationSettingKey_def treeIndentKey_def)
  from super calls show ?thesis by (rule conjI)
qed


theorem tree_options_follow_configuration_witness:
  "(\<exists>literal disposable h'.
      WorkbenchObjectTree_super_options 0
        (\<lambda>k. if k = ''workbench.list.keyboardNavigation'' then JStr ''filter''
             else if k = ''workbench.tree.indent'' then JNum 12 else JUndefined)
        (JRef 1) (JRef 1) Map.empty (JBool True) (JRef 2)
        \<lparr> cells = [0 \<mapsto> PlainObject [''indent'' \<mapsto> JNum 3], 1 \<mapsto> ForeignObject,
                   2 \<mapsto> ForeignObject], next_free = 3 \<rparr>
        = Some (literal, disposable, h')
    \<and> literal ''simpleKeyboardNavigation'' = Some (JBool False)
    \<and> literal ''filterOnType'' = Some (JBool True)
    \<and> literal ''indent'' = Some (JNum 12))
   \<and> wt_updateOptions_calls
       (wt_onDidChangeConfiguration
          \<lparr> affectsConfiguration = (\<lambda>k. k = ''workbench.tree.indent'') \<rparr>
          (\<lambda>k. if k = ''workbench.list.keyboardNavigation'' then JStr ''filter''
               else if k = ''workbench.tree.indent'' then JNum 12 else JUndefined)
          (WorkbenchObjectTree (\<lambda>k. JUndefined) :: nat workbench_object_tree))
     = [[''indent'' \<mapsto> JNum 12]]"
proof -
  let ?cfg = "\<lambda>k. if k = ''workbench.list.keyboardNavigation'' then JStr ''filter''
             else if k = ''workbench.tree.indent'' then JNum 12 else JUndefined"
  let ?props = "[''indent'' \<mapsto> JNum 3]"
  let ?h = "\<lparr> cells = [0 \<mapsto> PlainObject ?props, 1 \<mapsto> ForeignObject,
                   2 \<mapsto> ForeignObject], next_free = 3 \<rparr>"
  let ?e = "\<lparr> affectsConfiguration = (\<lambda>k. k = ''workbench.tree.indent'') \<rparr>"
  let ?t = "WorkbenchObjectTree (\<lambda>k. JUndefined) :: nat workbench_object_tree"
  have opt: "cells ?h 0 = Some (PlainObject ?props)" by simp
  have start: "wt_updateOptions_calls ?t = []"
    by (simp add: WorkbenchObjectTree_def)
  show ?thesis
    using tree_options_follow_configuration
      [OF opt, of ?cfg "JRef 1" "JRef 1" Map.empty "JBool True" "JRef 2" ?e ?cfg ?t] start
    by simp
qed

end
